theory Spec2Isabelle
  imports Complex_Main "HOL-Library.AList" "HOL-Library.Product_Lexorder"
begin

section \<open>Python values used by ip_location.py\<close>

text \<open>
  A Python \<^verbatim>\<open>str\<close> is a sequence of Unicode code points, so a string is a list of
  code points here (Chinese characters are single elements, as in Python).
  Python floats are idealised as real numbers, except in \<open>int_times_0_7\<close> below, where
  the rounding of the product decides the result and is modelled bit for bit.
  \<^verbatim>\<open>str.lower\<close> follows the Unicode case tables of the interpreter, which are no part of
  the repository: every function that lowercases takes the function \<open>lower\<close> as its first
  argument, and what is proved holds for every such function.
\<close>

type_synonym ustring = "nat list"

text \<open>
  The values a location field can hold: \<^verbatim>\<open>None\<close>, a string, or a list of strings
  (the keyed IP provider answers with an empty list where it knows nothing).
\<close>

datatype pyval = PNone | PStr ustring | PList "ustring list"

fun truthy :: "pyval \<Rightarrow> bool" where
  "truthy PNone = False"
| "truthy (PStr s) = (s \<noteq> [])"
| "truthy (PList l) = (l \<noteq> [])"

text \<open>Truthiness of a number or \<^verbatim>\<open>None\<close>: \<^verbatim>\<open>None\<close> and zero are false.\<close>

definition truthy_num :: "real option \<Rightarrow> bool" where
  "truthy_num x = (case x of None \<Rightarrow> False | Some v \<Rightarrow> v \<noteq> 0)"

text \<open>The one exception the matcher can raise: a method called on a value that has none.\<close>

datatype error = AttributeError

text \<open>\<^verbatim>\<open>str.strip()\<close>: the code points for which \<^verbatim>\<open>str.isspace\<close> holds are removed at both ends.\<close>

definition is_space :: "nat \<Rightarrow> bool" where
  "is_space c = (c \<in> set [9, 10, 11, 12, 13, 28, 29, 30, 31, 32, 133, 160, 5760,
     8192, 8193, 8194, 8195, 8196, 8197, 8198, 8199, 8200, 8201, 8202,
     8232, 8233, 8239, 8287, 12288])"

definition str_strip :: "ustring \<Rightarrow> ustring" where
  "str_strip s = rev (dropWhile is_space (rev (dropWhile is_space s)))"

text \<open>\<^verbatim>\<open>v.strip()\<close> on a value of any kind: only a string has the method.\<close>

definition strip_value :: "pyval \<Rightarrow> error + ustring" where
  "strip_value v = (case v of PStr s \<Rightarrow> Inr (str_strip s) | _ \<Rightarrow> Inl AttributeError)"

text \<open>\<^verbatim>\<open>sub in s\<close>: \<open>sub\<close> occurs in \<open>s\<close> as a contiguous piece; the empty string occurs everywhere.\<close>

fun str_in :: "ustring \<Rightarrow> ustring \<Rightarrow> bool" where
  "str_in sub [] = (sub = [])"
| "str_in sub (c # cs) = (take (length sub) (c # cs) = sub \<or> str_in sub cs)"

text \<open>
  \<^verbatim>\<open>s.replace(old, '')\<close> for a non-empty \<open>old\<close>: the occurrences of \<open>old\<close> are deleted
  from left to right, without overlap.
\<close>

function str_remove :: "ustring \<Rightarrow> ustring \<Rightarrow> ustring" where
  "str_remove old [] = []"
| "str_remove old (c # cs) =
     (if old \<noteq> [] \<and> take (length old) (c # cs) = old
      then str_remove old (drop (length old) (c # cs))
      else c # str_remove old cs)"
  by pat_completeness auto
termination
  by (relation "measure (\<lambda>(old, s). length s)") auto

text \<open>\<^verbatim>\<open>(x or '')\<close> for a value that is a string or \<^verbatim>\<open>None\<close>.\<close>

definition or_empty :: "ustring option \<Rightarrow> ustring" where
  "or_empty x = (case x of None \<Rightarrow> [] | Some s \<Rightarrow> s)"

section \<open>Records of the matcher\<close>

text \<open>
  The dictionary returned by \<^verbatim>\<open>get_location_by_ip\<close>. Keys that the matcher never reads
  (adcode, rectangle, timezone, isp) are left out. A missing latitude or longitude key reads
  as \<^verbatim>\<open>None\<close> through \<^verbatim>\<open>dict.get\<close>.
\<close>

record location_info =
  li_city :: pyval
  li_region :: pyval
  li_country :: pyval
  li_country_code :: pyval
  li_ip :: pyval
  li_latitude :: "real option"
  li_longitude :: "real option"
  li_success :: bool

text \<open>
  The dictionary returned by \<^verbatim>\<open>get_hospital_location\<close>. Its text fields hold whatever
  the provider's JSON held under the key: a string, \<^verbatim>\<open>null\<close> or a list.
\<close>

record hospital_location =
  hl_city :: pyval
  hl_region :: pyval
  hl_district :: pyval
  hl_formatted_address :: pyval
  hl_latitude :: "real option"
  hl_longitude :: "real option"
  hl_success :: bool

text \<open>A project as \<^verbatim>\<open>Project.to_dict\<close> gives it; only the keys the matcher reads.\<close>

record project =
  p_id :: int
  p_name :: "ustring option"
  p_hospital_name :: "ustring option"
  p_region :: "ustring option"

section \<open>calculate_distance\<close>

definition radians :: "real \<Rightarrow> real" where
  "radians x = x * (pi / 180)"

text \<open>The Haversine formula of lines 415 to 429, with the Earth's radius 6371 km.\<close>

definition haversine_km :: "real \<Rightarrow> real \<Rightarrow> real \<Rightarrow> real \<Rightarrow> real" where
  "haversine_km lat1 lon1 lat2 lon2 =
     (let lat1_rad = radians lat1;
          lat2_rad = radians lat2;
          delta_lat = radians (lat2 - lat1);
          delta_lon = radians (lon2 - lon1);
          a = (sin (delta_lat / 2))\<^sup>2 + cos lat1_rad * cos lat2_rad * (sin (delta_lon / 2))\<^sup>2;
          c = 2 * arcsin (sqrt a)
      in 6371 * c)"

text \<open>
  \<^verbatim>\<open>calculate_distance\<close>: \<^verbatim>\<open>not all([lat1, lon1, lat2, lon2])\<close> holds as soon as one
  argument is \<^verbatim>\<open>None\<close> or zero.
\<close>

definition calculate_distance ::
  "real option \<Rightarrow> real option \<Rightarrow> real option \<Rightarrow> real option \<Rightarrow> real option" where
  "calculate_distance lat1 lon1 lat2 lon2 =
     (if \<not> (truthy_num lat1 \<and> truthy_num lon1 \<and> truthy_num lat2 \<and> truthy_num lon2) then None
      else Some (haversine_km (the lat1) (the lon1) (the lat2) (the lon2)))"

section \<open>Normalisation of city and region names\<close>

text \<open>
  The suffixes are, as code points: U+5E02 (24066, city), U+53BF (21439, county),
  U+533A (21306, district), U+81EA U+6CBB U+5DDE (autonomous prefecture),
  U+5730 U+533A (prefecture), U+76DF (30431, league); for regions U+7701 (30465, province),
  U+5E02, U+81EA U+6CBB U+533A (autonomous region), U+7279 U+522B U+884C U+653F U+533A
  (special administrative region), U+7EF4 U+543E U+5C14 (Uyghur), U+56DE U+65CF (Hui),
  U+58EE U+65CF (Zhuang). They are removed wherever they occur, in the source's order.
\<close>

definition normalize_city :: "ustring \<Rightarrow> ustring" where
  "normalize_city s =
     str_remove [30431]
      (str_remove [22320, 21306]
        (str_remove [33258, 27835, 24030]
          (str_remove [21306]
            (str_remove [21439]
              (str_remove [24066] s)))))"

definition normalize_region :: "ustring \<Rightarrow> ustring" where
  "normalize_region s =
     str_remove [22766, 26063]
      (str_remove [22238, 26063]
        (str_remove [32500, 21566, 23572]
          (str_remove [29305, 21035, 34892, 25919, 21306]
            (str_remove [33258, 27835, 21306]
              (str_remove [24066]
                (str_remove [30465] s))))))"

text \<open>
  Lines 459 to 482: a raw field that is a list gives its first element (or the empty string),
  \<^verbatim>\<open>None\<close> gives the empty string; the result is stripped.
\<close>

definition clean_field :: "pyval \<Rightarrow> ustring" where
  "clean_field raw =
     str_strip (case raw of
                  PList l \<Rightarrow> (case l of [] \<Rightarrow> [] | x # _ \<Rightarrow> x)
                | PStr s \<Rightarrow> s
                | PNone \<Rightarrow> [])"

text \<open>The local variables that the matcher derives from the client's location (lines 459 to 502).\<close>

record client =
  ip_city_lower :: ustring
  ip_region_lower :: ustring
  ip_country_lower :: ustring
  ip_city_normalized :: ustring
  ip_region_normalized :: ustring
  ip_lat :: "real option"
  ip_lon :: "real option"
  is_vpn :: bool

text \<open>The strings "china" and U+4E2D U+56FD (the country's name in Chinese).\<close>

definition china_ascii :: ustring where
  "china_ascii = [99, 104, 105, 110, 97]"

definition china_cjk :: ustring where
  "china_cjk = [20013, 22269]"

definition prepare_client :: "(ustring \<Rightarrow> ustring) \<Rightarrow> location_info \<Rightarrow> client" where
  "prepare_client lower location_info =
     (let ip_city = clean_field (li_city location_info);
          ip_region = clean_field (li_region location_info);
          ip_country = clean_field (li_country location_info);
          city_lower = lower ip_city;
          region_lower = lower ip_region;
          country_lower = lower ip_country
      in \<lparr> ip_city_lower = city_lower,
           ip_region_lower = region_lower,
           ip_country_lower = country_lower,
           ip_city_normalized = normalize_city city_lower,
           ip_region_normalized = normalize_region region_lower,
           ip_lat = li_latitude location_info,
           ip_lon = li_longitude location_info,
           is_vpn = (country_lower \<noteq> [] \<and> \<not> str_in china_ascii country_lower
                      \<and> \<not> str_in china_cjk country_lower) \<rparr>)"

section \<open>Scoring one candidate\<close>

text \<open>City tier of a geocoded venue (lines 591 to 608); \<open>score\<close> is the running score.\<close>

definition city_match :: "client \<Rightarrow> ustring \<Rightarrow> ustring \<Rightarrow> int \<Rightarrow> int" where
  "city_match c hospital_city_lower hospital_city_normalized score =
     (if ip_city_lower c \<noteq> [] \<and> hospital_city_lower \<noteq> [] then
        if ip_city_lower c = hospital_city_lower then score + 50
        else if ip_city_normalized c \<noteq> [] \<and> hospital_city_normalized \<noteq> []
                \<and> ip_city_normalized c = hospital_city_normalized then score + 45
        else if str_in (ip_city_lower c) hospital_city_lower
                \<or> str_in hospital_city_lower (ip_city_lower c) then score + 40
        else if ip_city_normalized c \<noteq> [] \<and> hospital_city_normalized \<noteq> [] then
          if str_in (ip_city_normalized c) hospital_city_normalized
             \<or> str_in hospital_city_normalized (ip_city_normalized c) then score + 35
          else score
        else score
      else score)"

text \<open>Region tier of a geocoded venue (lines 611 to 628).\<close>

definition region_match :: "client \<Rightarrow> ustring \<Rightarrow> ustring \<Rightarrow> int \<Rightarrow> int" where
  "region_match c hospital_region_lower hospital_region_normalized score =
     (if ip_region_lower c \<noteq> [] \<and> hospital_region_lower \<noteq> [] then
        if ip_region_lower c = hospital_region_lower then score + 30
        else if ip_region_normalized c \<noteq> [] \<and> hospital_region_normalized \<noteq> []
                \<and> ip_region_normalized c = hospital_region_normalized then score + 25
        else if str_in (ip_region_lower c) hospital_region_lower
                \<or> str_in hospital_region_lower (ip_region_lower c) then score + 20
        else if ip_region_normalized c \<noteq> [] \<and> hospital_region_normalized \<noteq> [] then
          if str_in (ip_region_normalized c) hospital_region_normalized
             \<or> str_in hospital_region_normalized (ip_region_normalized c) then score + 15
          else score
        else score
      else score)"

text \<open>
  Distance tier (lines 631 to 652): the new score and \<^verbatim>\<open>distance_km\<close>, which stays
  \<^verbatim>\<open>None\<close> when the tier is skipped.
\<close>

definition distance_match ::
  "client \<Rightarrow> real option \<Rightarrow> real option \<Rightarrow> int \<Rightarrow> int \<times> real option" where
  "distance_match c hospital_lat hospital_lon score =
     (if truthy_num (ip_lat c) \<and> truthy_num (ip_lon c)
         \<and> truthy_num hospital_lat \<and> truthy_num hospital_lon then
        (case calculate_distance (ip_lat c) (ip_lon c) hospital_lat hospital_lon of
           None \<Rightarrow> (score, None)
         | Some distance_km \<Rightarrow>
             (if distance_km \<le> 10 then score + 30
              else if distance_km \<le> 50 then score + 20
              else if distance_km \<le> 100 then score + 10
              else if distance_km \<le> 200 then score + 5
              else score,
              Some distance_km))
      else (score, None))"

text \<open>
  The branch for a venue whose geocode succeeded (lines 578 to 652). The two calls of
  \<^verbatim>\<open>.strip()\<close> at its head raise when the city or the region is no string.
\<close>

definition score_geocoded ::
  "(ustring \<Rightarrow> ustring) \<Rightarrow> client \<Rightarrow> hospital_location \<Rightarrow> error + int \<times> real option" where
  "score_geocoded lower c hospital_location =
     (case strip_value (hl_city hospital_location) of
        Inl e \<Rightarrow> Inl e
      | Inr hospital_city \<Rightarrow>
          (case strip_value (hl_region hospital_location) of
             Inl e \<Rightarrow> Inl e
           | Inr hospital_region \<Rightarrow>
               let hospital_city_lower = lower hospital_city;
                   hospital_region_lower = lower hospital_region;
                   score = city_match c hospital_city_lower (normalize_city hospital_city_lower) 0;
                   score = region_match c hospital_region_lower
                             (normalize_region hospital_region_lower) score
               in Inr (distance_match c (hl_latitude hospital_location)
                         (hl_longitude hospital_location) score)))"

text \<open>
  The text fallback (lines 657 to 683): the client's city against the project's region field,
  then the normalised city and region against the project and hospital names.
\<close>

definition text_city_match :: "client \<Rightarrow> ustring \<Rightarrow> ustring \<Rightarrow> int \<Rightarrow> int" where
  "text_city_match c project_region_lower project_region_normalized score =
     (if ip_city_lower c \<noteq> [] \<and> project_region_lower \<noteq> [] then
        if ip_city_lower c = project_region_lower then score + 30
        else if str_in (ip_city_lower c) project_region_lower
                \<or> str_in project_region_lower (ip_city_lower c) then score + 25
        else if ip_city_normalized c \<noteq> [] \<and> project_region_normalized \<noteq> [] then
          if ip_city_normalized c = project_region_normalized then score + 28
          else if str_in (ip_city_normalized c) project_region_normalized
                  \<or> str_in project_region_normalized (ip_city_normalized c) then score + 22
          else score
        else score
      else score)"

definition text_name_match :: "client \<Rightarrow> ustring \<Rightarrow> int \<Rightarrow> int" where
  "text_name_match c search_text score =
     (let score = (if ip_city_normalized c \<noteq> [] \<and> 2 \<le> length (ip_city_normalized c)
                      \<and> str_in (ip_city_normalized c) search_text
                   then score + 15 else score)
      in if ip_region_normalized c \<noteq> [] \<and> 2 \<le> length (ip_region_normalized c)
            \<and> str_in (ip_region_normalized c) search_text
         then score + 10 else score)"

definition score_text :: "(ustring \<Rightarrow> ustring) \<Rightarrow> client \<Rightarrow> project \<Rightarrow> int" where
  "score_text lower c project =
     (let project_name = str_strip (or_empty (p_name project));
          hospital_name = str_strip (or_empty (p_hospital_name project));
          project_region = str_strip (or_empty (p_region project));
          project_region_lower = lower project_region;
          score = text_city_match c project_region_lower (normalize_city project_region_lower) 0;
          search_text = lower (project_name @ [32] @ hospital_name)
      in text_name_match c search_text score)"

text \<open>
  The score and distance of one candidate before the VPN step (lines 571 to 683).
  \<open>hospital_location\<close> is what \<^verbatim>\<open>hospital_locations.get(project_id)\<close> gave.
\<close>

definition score_candidate ::
  "(ustring \<Rightarrow> ustring) \<Rightarrow> client \<Rightarrow> hospital_location option \<Rightarrow> project
     \<Rightarrow> error + int \<times> real option" where
  "score_candidate lower c hospital_location project =
     (case hospital_location of
        Some h \<Rightarrow>
          if hl_success h then score_geocoded lower c h
          else Inr (score_text lower c project, None)
      | None \<Rightarrow> Inr (score_text lower c project, None))"

section \<open>The VPN step: int(score * 0.7)\<close>

text \<open>
  The float literal \<^verbatim>\<open>0.7\<close> is the double \<open>3152519739159347 / 2^52\<close>. The product of an
  integer below \<open>2^53\<close> with it is the exact product rounded to 53 significant bits, ties to
  the even neighbour; \<^verbatim>\<open>int\<close> then drops the fraction. \<open>round_to_53_bits\<close> works on the
  numerator over \<open>2^52\<close>.
\<close>

fun bit_length :: "nat \<Rightarrow> nat" where
  "bit_length n = (if n = 0 then 0 else Suc (bit_length (n div 2)))"

declare bit_length.simps [simp del]

definition round_to_53_bits :: "nat \<Rightarrow> nat" where
  "round_to_53_bits n =
     (if bit_length n \<le> 53 then n
      else let k = bit_length n - 53;
               q = n div 2 ^ k;
               r = n mod 2 ^ k;
               half = 2 ^ (k - 1)
           in (if half < r \<or> (r = half \<and> odd q) then q + 1 else q) * 2 ^ k)"

definition int_times_0_7 :: "int \<Rightarrow> int" where
  "int_times_0_7 score =
     (let n = round_to_53_bits (nat \<bar>score\<bar> * 3152519739159347) div 2 ^ 52
      in if score < 0 then - int n else int n)"

definition vpn_adjust :: "client \<Rightarrow> int \<Rightarrow> int" where
  "vpn_adjust c score = (if is_vpn c then int_times_0_7 score else score)"

section \<open>match_projects_by_location\<close>

record matched =
  m_project :: project
  m_score :: int
  m_distance_km :: "real option"

text \<open>
  One round of the scoring loop: the entry appended to \<^verbatim>\<open>matched_projects\<close>, if any,
  or the exception that ends the run.
\<close>

definition match_candidate ::
  "(ustring \<Rightarrow> ustring) \<Rightarrow> client \<Rightarrow> hospital_location option \<Rightarrow> project
     \<Rightarrow> error + matched option" where
  "match_candidate lower c hospital_location project =
     (case score_candidate lower c hospital_location project of
        Inl e \<Rightarrow> Inl e
      | Inr (raw, distance_km) \<Rightarrow>
          let score = vpn_adjust c raw
          in if 10 \<le> score
             then Inr (Some \<lparr> m_project = project, m_score = score,
                               m_distance_km = distance_km \<rparr>)
             else Inr None)"

text \<open>
  The scoring loop of lines 563 to 702 over the valid projects: the list
  \<^verbatim>\<open>matched_projects\<close> before it is sorted. An exception in one round leaves the
  function; nothing is returned then.
\<close>

fun score_all ::
  "(ustring \<Rightarrow> ustring) \<Rightarrow> client \<Rightarrow> (int \<Rightarrow> hospital_location option) \<Rightarrow> project list
     \<Rightarrow> error + matched list" where
  "score_all lower c hospital_locations [] = Inr []"
| "score_all lower c hospital_locations (project # projects) =
     (case match_candidate lower c (hospital_locations (p_id project)) project of
        Inl e \<Rightarrow> Inl e
      | Inr entry \<Rightarrow>
          (case score_all lower c hospital_locations projects of
             Inl e \<Rightarrow> Inl e
           | Inr entries \<Rightarrow>
               Inr (case entry of None \<Rightarrow> entries | Some x \<Rightarrow> x # entries)))"

text \<open>
  The sort key \<^verbatim>\<open>(-score, distance or inf)\<close>. The second and third components together
  stand for the distance: a missing distance comes after every number, as
  \<^verbatim>\<open>float('inf')\<close> does.
\<close>

definition rank_key :: "matched \<Rightarrow> int \<times> bool \<times> real" where
  "rank_key x = (- m_score x, m_distance_km x = None,
                 case m_distance_km x of None \<Rightarrow> 0 | Some d \<Rightarrow> d)"

definition is_valid_project :: "project \<Rightarrow> bool" where
  "is_valid_project project =
     (str_strip (or_empty (p_name project)) \<noteq> []
      \<or> str_strip (or_empty (p_hospital_name project)) \<noteq> [])"

text \<open>
  The sorted list \<^verbatim>\<open>matched_projects\<close>, or the exception raised. \<open>hospital_locations\<close>
  is the dictionary that the thread pool has filled (project id to geocode result,
  \<^verbatim>\<open>None\<close> where the lookup failed); the matcher only reads it with \<^verbatim>\<open>get\<close>.
  \<^verbatim>\<open>list.sort\<close> is stable, as \<open>sort_key\<close> is.
\<close>

definition matched_projects ::
  "(ustring \<Rightarrow> ustring) \<Rightarrow> location_info \<Rightarrow> (int \<Rightarrow> hospital_location option)
     \<Rightarrow> project list \<Rightarrow> error + matched list" where
  "matched_projects lower location_info hospital_locations projects =
     (if \<not> li_success location_info then Inr []
      else
        let c = prepare_client lower location_info;
            valid_projects = filter is_valid_project projects
        in if valid_projects = [] then Inr []
           else (case score_all lower c hospital_locations valid_projects of
                   Inl e \<Rightarrow> Inl e
                 | Inr entries \<Rightarrow> Inr (sort_key rank_key entries)))"

text \<open>\<^verbatim>\<open>match_projects_by_location\<close>: the projects of the sorted entries.\<close>

definition match_projects_by_location ::
  "(ustring \<Rightarrow> ustring) \<Rightarrow> location_info \<Rightarrow> (int \<Rightarrow> hospital_location option)
     \<Rightarrow> project list \<Rightarrow> error + project list" where
  "match_projects_by_location lower location_info hospital_locations projects =
     (case matched_projects lower location_info hospital_locations projects of
        Inl e \<Rightarrow> Inl e
      | Inr entries \<Rightarrow> Inr (map m_project entries))"

section \<open>The two caches\<close>

text \<open>
  \<^verbatim>\<open>_location_cache\<close> and \<^verbatim>\<open>_hospital_cache\<close> are dictionaries from a key to
  \<^verbatim>\<open>(result, timestamp)\<close>. A dictionary keeps its keys in insertion order, which
  \<^verbatim>\<open>min\<close> follows, so it is an association list: assignment is \<open>AList.update\<close> (in place
  for a present key, at the end for a new one) and \<^verbatim>\<open>del\<close> is \<open>AList.delete\<close>.
  The readings of \<^verbatim>\<open>time.time()\<close> are arguments. \<open>cache_get\<close> and \<open>cache_put\<close> are
  a lookup and a store that no other thread interrupts, as in \<^verbatim>\<open>get_location_by_ip\<close>;
  the stores of the pool's workers are \<open>put_step\<close> and \<open>pool_run\<close> below.
\<close>

type_synonym ('k, 'v) cache = "('k \<times> 'v \<times> real) list"

definition cache_ttl :: real where
  "cache_ttl = 3600"

text \<open>The lookup at the head of both resolvers (lines 99 to 106 and 318 to 325).\<close>

definition cache_get :: "real \<Rightarrow> 'k \<Rightarrow> ('k, 'v) cache \<Rightarrow> 'v option \<times> ('k, 'v) cache" where
  "cache_get now cache_key cache =
     (case map_of cache cache_key of
        None \<Rightarrow> (None, cache)
      | Some (result, timestamp) \<Rightarrow>
          if now - timestamp < cache_ttl then (Some result, cache)
          else (None, AList.delete cache_key cache))"

text \<open>
  \<^verbatim>\<open>min(cache.items(), key=lambda x: x[1][1])\<close>: the first entry, in dictionary order,
  whose timestamp is the smallest.
\<close>

fun min_by_timestamp :: "'k \<times> 'v \<times> real \<Rightarrow> ('k \<times> 'v \<times> real) list \<Rightarrow> 'k \<times> 'v \<times> real" where
  "min_by_timestamp best [] = best"
| "min_by_timestamp best (x # xs) =
     (if snd (snd x) < snd (snd best) then min_by_timestamp x xs else min_by_timestamp best xs)"

text \<open>
  The store with its size limit (lines 149 to 152, 191 to 194, 228 to 231, 383 to 387).
  \<^verbatim>\<open>min\<close> of an empty dictionary cannot be reached: the entry just stored is there.
\<close>

definition cache_put :: "nat \<Rightarrow> real \<Rightarrow> 'k \<Rightarrow> 'v \<Rightarrow> ('k, 'v) cache \<Rightarrow> ('k, 'v) cache" where
  "cache_put max_entries now cache_key result cache =
     (let cache = AList.update cache_key (result, now) cache
      in if max_entries < length cache then
           (case cache of
              [] \<Rightarrow> cache
            | e # es \<Rightarrow> AList.delete (fst (min_by_timestamp e es)) cache)
         else cache)"

definition location_cache_max :: nat where
  "location_cache_max = 100"

definition hospital_cache_max :: nat where
  "hospital_cache_max = 200"

text \<open>A history of uninterrupted cache operations, started on the empty dictionary.\<close>

datatype ('k, 'v) cache_op = Get real 'k | Put real 'k 'v

fun cache_step :: "nat \<Rightarrow> ('k, 'v) cache \<Rightarrow> ('k, 'v) cache_op \<Rightarrow> ('k, 'v) cache" where
  "cache_step max_entries cache (Get now k) = snd (cache_get now k cache)"
| "cache_step max_entries cache (Put now k v) = cache_put max_entries now k v cache"

definition cache_run :: "nat \<Rightarrow> ('k, 'v) cache_op list \<Rightarrow> ('k, 'v) cache" where
  "cache_run max_entries ops = foldl (cache_step max_entries) [] ops"

text \<open>
  The store of lines 383 to 387 as the interpreter runs it in a worker of the thread pool:
  three steps, between which another worker can run. The assignment comes first; then the
  size is tested and the oldest key chosen; then the key is deleted, which raises
  \<^verbatim>\<open>KeyError\<close> when it is no longer there. The exception is caught at line 394, and the
  worker returns \<^verbatim>\<open>None\<close>.
\<close>

datatype 'k put_pc = AtStore | AtCheck | AtDelete 'k | Finished | Raised

fun put_step ::
  "nat \<Rightarrow> 'k \<times> 'v \<times> real \<Rightarrow> 'k put_pc \<Rightarrow> ('k, 'v) cache \<Rightarrow> 'k put_pc \<times> ('k, 'v) cache" where
  "put_step max_entries job AtStore cache = (AtCheck, AList.update (fst job) (snd job) cache)"
| "put_step max_entries job AtCheck cache =
     (if max_entries < length cache then
        (case cache of
           [] \<Rightarrow> (Raised, cache)
         | e # es \<Rightarrow> (AtDelete (fst (min_by_timestamp e es)), cache))
      else (Finished, cache))"
| "put_step max_entries job (AtDelete oldest_key) cache =
     (if oldest_key \<in> set (map fst cache) then (Finished, AList.delete oldest_key cache)
      else (Raised, cache))"
| "put_step max_entries job Finished cache = (Finished, cache)"
| "put_step max_entries job Raised cache = (Raised, cache)"

text \<open>
  Two workers that store into the same dictionary; a schedule says which of them takes the
  next step.
\<close>

datatype worker = First | Second

fun pool_step ::
  "nat \<Rightarrow> 'k \<times> 'v \<times> real \<Rightarrow> 'k \<times> 'v \<times> real \<Rightarrow> 'k put_pc \<times> 'k put_pc \<times> ('k, 'v) cache
     \<Rightarrow> worker \<Rightarrow> 'k put_pc \<times> 'k put_pc \<times> ('k, 'v) cache" where
  "pool_step max_entries job1 job2 (pc1, pc2, cache) First =
     (case put_step max_entries job1 pc1 cache of (pc1', cache') \<Rightarrow> (pc1', pc2, cache'))"
| "pool_step max_entries job1 job2 (pc1, pc2, cache) Second =
     (case put_step max_entries job2 pc2 cache of (pc2', cache') \<Rightarrow> (pc1, pc2', cache'))"

definition pool_run ::
  "nat \<Rightarrow> 'k \<times> 'v \<times> real \<Rightarrow> 'k \<times> 'v \<times> real \<Rightarrow> ('k, 'v) cache \<Rightarrow> worker list
     \<Rightarrow> 'k put_pc \<times> 'k put_pc \<times> ('k, 'v) cache" where
  "pool_run max_entries job1 job2 cache schedule =
     foldl (pool_step max_entries job1 job2) (AtStore, AtStore, cache) schedule"

section \<open>get_location_by_ip\<close>

text \<open>
  A key of a JSON object is absent (\<open>None\<close>) or holds a value. \<open>jget\<close> is
  \<^verbatim>\<open>data.get(key)\<close> and \<open>jget_default\<close> is \<^verbatim>\<open>data.get(key, default)\<close>.
\<close>

definition jget :: "pyval option \<Rightarrow> pyval" where
  "jget field = (case field of None \<Rightarrow> PNone | Some v \<Rightarrow> v)"

definition jget_default :: "pyval option \<Rightarrow> pyval \<Rightarrow> pyval" where
  "jget_default field d = (case field of None \<Rightarrow> d | Some v \<Rightarrow> v)"

text \<open>
  What the providers answer is an input of the model. Each answer is \<open>None\<close> when the
  request raised, the status was not 200 or the body was no JSON object: in each of these
  cases the source moves on to the next provider.
\<close>

record amap_ip_data =
  ai_status :: "pyval option"
  ai_info :: "pyval option"
  ai_province :: "pyval option"
  ai_city :: "pyval option"

text \<open>
  The outcome of lines 173 to 175 on the \<^verbatim>\<open>loc\<close> key: \<open>LocError\<close> when they raise
  (the value is no string, or \<^verbatim>\<open>float\<close> rejects a part), else the two coordinates.
\<close>

datatype loc_parse = LocError | LocCoords "real option" "real option"

record ipinfo_data =
  ii_city :: "pyval option"
  ii_region :: "pyval option"
  ii_country :: "pyval option"
  ii_ip :: "pyval option"
  ii_loc :: loc_parse

text \<open>\<open>ia_error\<close> is the truth value of \<^verbatim>\<open>data.get('error')\<close>.\<close>

record ipapi_data =
  ia_error :: bool
  ia_city :: "pyval option"
  ia_region :: "pyval option"
  ia_country_name :: "pyval option"
  ia_country_code :: "pyval option"
  ia_ip :: "pyval option"
  ia_latitude :: "real option"
  ia_longitude :: "real option"

record ipsb_data =
  sb_city :: "pyval option"
  sb_region :: "pyval option"
  sb_country :: "pyval option"
  sb_country_code :: "pyval option"
  sb_ip :: "pyval option"
  sb_latitude :: "real option"
  sb_longitude :: "real option"

text \<open>
  The surroundings of one call: the configured key, what \<^verbatim>\<open>get_public_ip()\<close> returns,
  the providers' answers and the clock at the cache lookup and at the store.
\<close>

record ip_env =
  amap_api_key :: ustring
  public_ip :: "ustring option"
  amap_ip_response :: "amap_ip_data option"
  ipinfo_response :: "ipinfo_data option"
  ipapi_response :: "ipapi_data option"
  ipsb_response :: "ipsb_data option"
  t_lookup :: real
  t_store :: real

text \<open>Lines 124 to 131: a list gives its first element, a false value the empty string.\<close>

definition amap_field :: "pyval \<Rightarrow> ustring" where
  "amap_field v =
     (case v of
        PList l \<Rightarrow> (case l of [] \<Rightarrow> [] | x # _ \<Rightarrow> x)
      | PStr s \<Rightarrow> s
      | PNone \<Rightarrow> [])"

text \<open>
  The keyed provider (lines 110 to 159); \<^verbatim>\<open>'1'\<close> is \<open>[49]\<close>, \<^verbatim>\<open>'OK'\<close> is \<open>[79, 75]\<close>,
  \<^verbatim>\<open>'CN'\<close> is \<open>[67, 78]\<close>. \<open>None\<close>: the chain goes on.
\<close>

definition amap_provider :: "ip_env \<Rightarrow> ustring \<Rightarrow> location_info option" where
  "amap_provider env ip_address =
     (if amap_api_key env = [] then None
      else case amap_ip_response env of
        None \<Rightarrow> None
      | Some data \<Rightarrow>
          if jget (ai_status data) = PStr [49] \<and> jget (ai_info data) = PStr [79, 75] then
            let province = amap_field (jget_default (ai_province data) (PStr []));
                city = amap_field (jget_default (ai_city data) (PStr []))
            in if province = [] \<and> city = [] then None
               else Some \<lparr> li_city = PStr city, li_region = PStr province,
                           li_country = PStr china_cjk, li_country_code = PStr [67, 78],
                           li_ip = PStr ip_address,
                           li_latitude = None, li_longitude = None, li_success = True \<rparr>
          else None)"

text \<open>The first free provider (lines 162 to 201).\<close>

definition ipinfo_provider :: "ip_env \<Rightarrow> ustring \<Rightarrow> location_info option" where
  "ipinfo_provider env ip_address =
     (case ipinfo_response env of
        None \<Rightarrow> None
      | Some data \<Rightarrow>
          if truthy (jget (ii_city data)) \<or> truthy (jget (ii_region data)) then
            (case ii_loc data of
               LocError \<Rightarrow> None
             | LocCoords latitude longitude \<Rightarrow>
                 Some \<lparr> li_city = jget_default (ii_city data) (PStr []),
                        li_region = jget_default (ii_region data) (PStr []),
                        li_country = jget_default (ii_country data) (PStr []),
                        li_country_code = jget_default (ii_country data) (PStr []),
                        li_ip = jget_default (ii_ip data) (PStr ip_address),
                        li_latitude = latitude, li_longitude = longitude,
                        li_success = True \<rparr>)
          else None)"

text \<open>The second free provider (lines 204 to 236).\<close>

definition ipapi_provider :: "ip_env \<Rightarrow> ustring \<Rightarrow> location_info option" where
  "ipapi_provider env ip_address =
     (case ipapi_response env of
        None \<Rightarrow> None
      | Some data \<Rightarrow>
          if \<not> ia_error data then
            Some \<lparr> li_city = jget_default (ia_city data) (PStr []),
                   li_region = jget_default (ia_region data) (PStr []),
                   li_country = jget_default (ia_country_name data) (PStr []),
                   li_country_code = jget_default (ia_country_code data) (PStr []),
                   li_ip = jget_default (ia_ip data) (PStr ip_address),
                   li_latitude = ia_latitude data, li_longitude = ia_longitude data,
                   li_success = True \<rparr>
          else None)"

text \<open>The record returned when every service has failed (lines 280 to 287).\<close>

definition failed_location :: "ustring option \<Rightarrow> location_info" where
  "failed_location ip_address =
     \<lparr> li_city = PStr [], li_region = PStr [], li_country = PStr [], li_country_code = PStr [],
       li_ip = PStr (or_empty ip_address),
       li_latitude = None, li_longitude = None, li_success = False \<rparr>"

text \<open>\<^verbatim>\<open>_get_location_fallback\<close> (lines 241 to 287); it does not touch the cache.\<close>

definition get_location_fallback :: "ip_env \<Rightarrow> ustring option \<Rightarrow> location_info" where
  "get_location_fallback env ip_address =
     (case ipsb_response env of
        None \<Rightarrow> failed_location ip_address
      | Some data \<Rightarrow>
          if truthy (jget (sb_city data)) \<or> truthy (jget (sb_region data)) then
            \<lparr> li_city = jget_default (sb_city data) (PStr []),
              li_region = jget_default (sb_region data) (PStr []),
              li_country = jget_default (sb_country data) (PStr []),
              li_country_code = jget_default (sb_country_code data) (PStr []),
              li_ip = jget_default (sb_ip data) (PStr (or_empty ip_address)),
              li_latitude = sb_latitude data, li_longitude = sb_longitude data,
              li_success = True \<rparr>
          else failed_location ip_address)"

text \<open>The three providers whose result is stored, in the order of the source.\<close>

definition primary_providers :: "ip_env \<Rightarrow> ustring \<Rightarrow> location_info option" where
  "primary_providers env ip_address =
     (case amap_provider env ip_address of
        Some r \<Rightarrow> Some r
      | None \<Rightarrow>
          (case ipinfo_provider env ip_address of
             Some r \<Rightarrow> Some r
           | None \<Rightarrow> ipapi_provider env ip_address))"

text \<open>\<^verbatim>\<open>get_location_by_ip\<close>: the record returned and the cache afterwards.\<close>

definition get_location_by_ip ::
  "ip_env \<Rightarrow> ustring option \<Rightarrow> (ustring, location_info) cache
     \<Rightarrow> location_info \<times> (ustring, location_info) cache" where
  "get_location_by_ip env ip_address cache =
     (let ip_address = (if or_empty ip_address = [] then public_ip env else ip_address)
      in if or_empty ip_address = [] then (get_location_fallback env None, cache)
         else
           let ip = or_empty ip_address
           in case cache_get (t_lookup env) ip cache of
                (Some result, cache) \<Rightarrow> (result, cache)
              | (None, cache) \<Rightarrow>
                  (case primary_providers env ip of
                     Some location_result \<Rightarrow>
                       (location_result,
                        cache_put location_cache_max (t_store env) ip location_result cache)
                   | None \<Rightarrow> (get_location_fallback env (Some ip), cache)))"

section \<open>get_hospital_location\<close>

text \<open>
  The outcome of reading \<^verbatim>\<open>location\<close> of the first geocode (lines 366 to 369):
  empty or absent, rejected by the parse (an exception), or longitude and latitude.
\<close>

datatype geo_location_parse = GeoNoLocation | GeoLocationError | GeoLonLat real real

record geocode =
  gc_city :: "pyval option"
  gc_province :: "pyval option"
  gc_district :: "pyval option"
  gc_formatted_address :: "pyval option"
  gc_location :: geo_location_parse

record geo_data =
  gd_status :: "pyval option"
  gd_count :: "pyval option"
  gd_geocodes :: "geocode list option"

record geo_env =
  geo_api_key :: ustring
  geo_response :: "geo_data option"
  geo_t_lookup :: real
  geo_t_store :: real

text \<open>
  What lines 346 to 393 make of the provider's answer: the location record, or \<open>None\<close>
  when the answer is missing, reports a failure or holds no coordinates. \<^verbatim>\<open>'1'\<close> is
  \<open>[49]\<close> and \<^verbatim>\<open>'0'\<close> is \<open>[48]\<close>. With the \<^verbatim>\<open>geocodes\<close> key absent the default
  \<^verbatim>\<open>[{}]\<close> gives a geocode without location; an empty list raises. The text fields of
  the geocode are copied as they are (lines 372 to 375), with the empty string for an absent
  key.
\<close>

definition geocode_result :: "geo_env \<Rightarrow> hospital_location option" where
  "geocode_result env =
     (case geo_response env of
        None \<Rightarrow> None
      | Some data \<Rightarrow>
          if jget (gd_status data) = PStr [49] \<and> jget (gd_count data) \<noteq> PStr [48] then
            (case gd_geocodes data of
               None \<Rightarrow> None
             | Some [] \<Rightarrow> None
             | Some (geocode # _) \<Rightarrow>
                 (case gc_location geocode of
                    GeoLonLat lon lat \<Rightarrow>
                      Some \<lparr> hl_city = jget_default (gc_city geocode) (PStr []),
                             hl_region = jget_default (gc_province geocode) (PStr []),
                             hl_district = jget_default (gc_district geocode) (PStr []),
                             hl_formatted_address =
                               jget_default (gc_formatted_address geocode) (PStr []),
                             hl_latitude = Some lat, hl_longitude = Some lon,
                             hl_success = True \<rparr>
                  | _ \<Rightarrow> None))
          else None)"

text \<open>
  \<^verbatim>\<open>get_hospital_location\<close>: the result (\<^verbatim>\<open>None\<close> for every failure), the cache
  afterwards and the number of HTTP requests made. The underscore of the cache key is
  \<open>95\<close>.
\<close>

definition get_hospital_location ::
  "geo_env \<Rightarrow> ustring option \<Rightarrow> ustring option \<Rightarrow> ustring option
     \<Rightarrow> (ustring, hospital_location) cache
     \<Rightarrow> hospital_location option \<times> (ustring, hospital_location) cache \<times> nat" where
  "get_hospital_location env hospital_name project_name city cache =
     (if geo_api_key env = [] then (None, cache, 0)
      else
        let query_keyword = or_empty (if or_empty hospital_name \<noteq> [] then hospital_name
                                      else project_name)
        in if query_keyword = [] then (None, cache, 0)
           else
             let cache_key = query_keyword @ [95] @ or_empty city
             in case cache_get (geo_t_lookup env) cache_key cache of
                  (Some result, cache) \<Rightarrow> (Some result, cache, 0)
                | (None, cache) \<Rightarrow>
                    (case geocode_result env of
                       Some location_result \<Rightarrow>
                         (Some location_result,
                          cache_put hospital_cache_max (geo_t_store env)
                            cache_key location_result cache,
                          1)
                     | None \<Rightarrow> (None, cache, 1)))"

section \<open>Notions used to state the properties\<close>

text \<open>The score of a candidate after the VPN step, the one the threshold is applied to.\<close>

definition final_score ::
  "(ustring \<Rightarrow> ustring) \<Rightarrow> location_info \<Rightarrow> (int \<Rightarrow> hospital_location option) \<Rightarrow> project
     \<Rightarrow> error + int" where
  "final_score lower location_info hospital_locations project =
     (case score_candidate lower (prepare_client lower location_info)
             (hospital_locations (p_id project)) project of
        Inl e \<Rightarrow> Inl e
      | Inr (raw, distance_km) \<Rightarrow> Inr (vpn_adjust (prepare_client lower location_info) raw))"

text \<open>A geocode result whose city and region are strings, if there is one at all.\<close>

definition text_fields_are_strings :: "hospital_location option \<Rightarrow> bool" where
  "text_fields_are_strings hospital_location =
     (case hospital_location of
        None \<Rightarrow> True
      | Some h \<Rightarrow>
          (case hl_city h of PStr s \<Rightarrow> True | _ \<Rightarrow> False)
          \<and> (case hl_region h of PStr s \<Rightarrow> True | _ \<Rightarrow> False))"

text \<open>
  The ranking in the specification's words: a higher score first; at equal score a known
  distance before an unknown one, and known distances in ascending order.
\<close>

definition spec_ranked_before :: "matched \<Rightarrow> matched \<Rightarrow> bool" where
  "spec_ranked_before x y =
     (m_score y < m_score x
      \<or> (m_score x = m_score y
          \<and> (case (m_distance_km x, m_distance_km y) of
                (Some dx, Some dy) \<Rightarrow> dx \<le> dy
              | (Some dx, None) \<Rightarrow> True
              | (None, Some dy) \<Rightarrow> False
              | (None, None) \<Rightarrow> True)))"

text \<open>The distance tier as the specification lists it.\<close>

definition spec_distance_tier :: "real \<Rightarrow> int" where
  "spec_distance_tier d =
     (if d \<le> 10 then 30 else if d \<le> 50 then 20 else if d \<le> 100 then 10
      else if d \<le> 200 then 5 else 0)"

text \<open>
  The city normalisation in the specification's words: the six suffix strings are stripped,
  U+5730 U+533A as a whole, so before its part U+533A.
\<close>

definition spec_normalize_city :: "ustring \<Rightarrow> ustring" where
  "spec_normalize_city s =
     str_remove [30431]
      (str_remove [33258, 27835, 24030]
        (str_remove [21306]
          (str_remove [21439]
            (str_remove [24066]
              (str_remove [22320, 21306] s)))))"

text \<open>
  A store in the specification's words. \<open>stored\<close> is the dictionary after the assignment
  and \<open>result\<close> what the store leaves: \<open>stored\<close> without exactly one entry, whose
  timestamp is the smallest, when \<open>stored\<close> has more than \<open>max_entries\<close> entries, and
  \<open>stored\<close> itself otherwise.
\<close>

definition spec_put_result :: "nat \<Rightarrow> ('k, 'v) cache \<Rightarrow> ('k, 'v) cache \<Rightarrow> bool" where
  "spec_put_result max_entries stored result =
     (if max_entries < length stored
      then \<exists>e \<in> set stored.
             (\<forall>e' \<in> set stored. snd (snd e) \<le> snd (snd e'))
             \<and> result = AList.delete (fst e) stored
             \<and> set result = set stored - {e}
             \<and> Suc (length result) = length stored
      else result = stored)"

section \<open>Concrete inputs\<close>

text \<open>
  \<^verbatim>\<open>str.lower\<close> on strings of ASCII characters and of characters without case, as the
  Chinese ones are: the letters A to Z are folded. The concrete runs below use it on such
  strings only.
\<close>

definition lower_ascii :: "ustring \<Rightarrow> ustring" where
  "lower_ascii s = map (\<lambda>c. if 65 \<le> c \<and> c \<le> 90 then c + 32 else c) s"

text \<open>A client whose only known field is the city, and a venue geocoded to a city only.\<close>

definition client_in_city :: "ustring \<Rightarrow> location_info" where
  "client_in_city city =
     \<lparr> li_city = PStr city, li_region = PStr [], li_country = PStr [],
       li_country_code = PStr [], li_ip = PStr [], li_latitude = None, li_longitude = None,
       li_success = True \<rparr>"

definition venue_in_city :: "pyval \<Rightarrow> hospital_location" where
  "venue_in_city city =
     \<lparr> hl_city = city, hl_region = PStr [], hl_district = PStr [],
       hl_formatted_address = PStr [], hl_latitude = None, hl_longitude = None,
       hl_success = True \<rparr>"

text \<open>A client and a venue known by their coordinates only.\<close>

definition client_at :: "ustring \<Rightarrow> real \<Rightarrow> real \<Rightarrow> location_info" where
  "client_at country lat lon =
     \<lparr> li_city = PStr [], li_region = PStr [], li_country = PStr country,
       li_country_code = PStr [], li_ip = PStr [], li_latitude = Some lat,
       li_longitude = Some lon, li_success = True \<rparr>"

definition venue_at :: "real \<Rightarrow> real \<Rightarrow> hospital_location" where
  "venue_at lat lon =
     \<lparr> hl_city = PStr [], hl_region = PStr [], hl_district = PStr [],
       hl_formatted_address = PStr [], hl_latitude = Some lat, hl_longitude = Some lon,
       hl_success = True \<rparr>"

text \<open>A project named "A" (\<open>[65]\<close>) with the given id and region field.\<close>

definition project_named_A :: "int \<Rightarrow> ustring option \<Rightarrow> project" where
  "project_named_A i r = \<lparr> p_id = i, p_name = Some [65], p_hospital_name = None, p_region = r \<rparr>"

text \<open>
  Geocode results of a run with two candidates: the first venue lies in the city
  U+5317 U+4EAC, for the second the provider has answered with an empty list as the city.
\<close>

definition venues_second_city_is_list :: "int \<Rightarrow> hospital_location option" where
  "venues_second_city_is_list i =
     (if i = 1 then Some (venue_in_city (PStr [21271, 20140]))
      else Some ((venue_at 39 116) \<lparr> hl_city := PList [] \<rparr>))"

text \<open>
  Geocode results of a run with two candidates in the client's city, and of a run with three
  candidates: one in the client's region, one at the client's position, one in the client's
  city.
\<close>

definition venues_first_in_city :: "int \<Rightarrow> hospital_location option" where
  "venues_first_in_city i =
     (if i = 1 then Some (venue_in_city (PStr [21271, 20140]))
      else Some (venue_in_city (PStr [97])))"

definition venues_of_three :: "int \<Rightarrow> hospital_location option" where
  "venues_of_three i =
     (if i = 1 then Some ((venue_in_city (PStr [])) \<lparr> hl_region := PStr [99, 100] \<rparr>)
      else if i = 2 then Some (venue_at 39 116)
      else Some (venue_in_city (PStr [97, 98])))"

text \<open>Surroundings in which no key is configured and no provider answers.\<close>

definition silent_ip_env :: ip_env where
  "silent_ip_env =
     \<lparr> amap_api_key = [], public_ip = None, amap_ip_response = None, ipinfo_response = None,
       ipapi_response = None, ipsb_response = None, t_lookup = 0, t_store = 0 \<rparr>"

definition silent_geo_env :: geo_env where
  "silent_geo_env = \<lparr> geo_api_key = [], geo_response = None, geo_t_lookup = 0, geo_t_store = 0 \<rparr>"

text \<open>Answers of the free providers that name the city "x" (\<open>[120]\<close>) and nothing else.\<close>

definition ipinfo_city_x :: ipinfo_data where
  "ipinfo_city_x =
     \<lparr> ii_city = Some (PStr [120]), ii_region = None, ii_country = None, ii_ip = None,
       ii_loc = LocCoords None None \<rparr>"

definition ipsb_city_x :: ipsb_data where
  "ipsb_city_x =
     \<lparr> sb_city = Some (PStr [120]), sb_region = None, sb_country = None,
       sb_country_code = None, sb_ip = None, sb_latitude = None, sb_longitude = None \<rparr>"

text \<open>An answer of the second free provider that is an empty JSON object.\<close>

definition ipapi_empty_object :: ipapi_data where
  "ipapi_empty_object =
     \<lparr> ia_error = False, ia_city = None, ia_region = None, ia_country_name = None,
       ia_country_code = None, ia_ip = None, ia_latitude = None, ia_longitude = None \<rparr>"

text \<open>
  An answer of the geocoding provider whose first geocode has an empty list as its city and
  the position 116, 39; the key "k" (\<open>[107]\<close>) is configured.
\<close>

definition geo_env_city_is_list :: geo_env where
  "geo_env_city_is_list =
     \<lparr> geo_api_key = [107],
       geo_response =
         Some \<lparr> gd_status = Some (PStr [49]), gd_count = Some (PStr [49]),
                gd_geocodes =
                  Some [\<lparr> gc_city = Some (PList []), gc_province = Some (PStr []),
                          gc_district = Some (PStr []), gc_formatted_address = Some (PStr []),
                          gc_location = GeoLonLat 116 39 \<rparr>] \<rparr>,
       geo_t_lookup = 0, geo_t_store = 0 \<rparr>"

text \<open>
  An answer of the geocoding provider that names the city U+5317 U+4EAC at the position
  116, 39, looked up and stored at the time 1000.
\<close>

definition geo_env_answering :: geo_env where
  "geo_env_answering =
     \<lparr> geo_api_key = [107],
       geo_response =
         Some \<lparr> gd_status = Some (PStr [49]), gd_count = Some (PStr [49]),
                gd_geocodes =
                  Some [\<lparr> gc_city = Some (PStr [21271, 20140]), gc_province = Some (PStr []),
                          gc_district = Some (PStr []), gc_formatted_address = Some (PStr []),
                          gc_location = GeoLonLat 116 39 \<rparr>] \<rparr>,
       geo_t_lookup = 1000, geo_t_store = 1000 \<rparr>"

text \<open>
  A venue cache that is full: 200 entries with the keys U+4E00 "_" to U+4EC7 "_", stored at
  the times 0 to 199. Two stores of new keys at the time 1000.
\<close>

definition full_venue_cache :: "(ustring, hospital_location) cache" where
  "full_venue_cache = map (\<lambda>i. ([19968 + i, 95], venue_at 39 116, real i)) [0..<200]"

definition store_of_a :: "ustring \<times> hospital_location \<times> real" where
  "store_of_a = ([97, 95], venue_at 39 116, 1000)"

definition store_of_b :: "ustring \<times> hospital_location \<times> real" where
  "store_of_b = ([98, 95], venue_at 31 121, 1000)"

section \<open>Strings\<close>

text \<open>\<open>str_in\<close> is the substring test.\<close>

lemma take_is_prefix: "take (length sub) s = sub \<longleftrightarrow> (\<exists>ss. s = sub @ ss)"
  by (metis append_eq_conv_conj append_take_drop_id)

lemma str_in_iff: "str_in sub s \<longleftrightarrow> (\<exists>ps ss. s = ps @ sub @ ss)"
proof (induction s)
  case Nil
  then show ?case by auto
next
  case (Cons c cs)
  have "(\<exists>ps ss. c # cs = ps @ sub @ ss)
          \<longleftrightarrow> (\<exists>ss. c # cs = sub @ ss) \<or> (\<exists>ps ss. cs = ps @ sub @ ss)"
  proof
    assume "\<exists>ps ss. c # cs = ps @ sub @ ss"
    then obtain ps ss where e: "c # cs = ps @ sub @ ss" by blast
    show "(\<exists>ss. c # cs = sub @ ss) \<or> (\<exists>ps ss. cs = ps @ sub @ ss)"
    proof (cases ps)
      case Nil
      with e show ?thesis by auto
    next
      case (Cons p ps')
      with e have "cs = ps' @ sub @ ss" by simp
      then show ?thesis by blast
    qed
  next
    assume "(\<exists>ss. c # cs = sub @ ss) \<or> (\<exists>ps ss. cs = ps @ sub @ ss)"
    then show "\<exists>ps ss. c # cs = ps @ sub @ ss"
    proof
      assume "\<exists>ss. c # cs = sub @ ss"
      then obtain ss where "c # cs = [] @ sub @ ss" by auto
      then show ?thesis by blast
    next
      assume "\<exists>ps ss. cs = ps @ sub @ ss"
      then obtain ps ss where "c # cs = (c # ps) @ sub @ ss" by auto
      then show ?thesis by blast
    qed
  qed
  with Cons.IH take_is_prefix [of sub "c # cs"] show ?case by simp
qed

lemma str_in_set: "str_in sub s \<Longrightarrow> set sub \<subseteq> set s"
  by (auto simp add: str_in_iff)

lemma str_remove_id: "\<not> str_in old s \<Longrightarrow> str_remove old s = s"
  by (induction s) auto

lemma set_str_remove: "set (str_remove old s) \<subseteq> set s"
proof (induction old s rule: str_remove.induct)
  case (1 old)
  then show ?case by simp
next
  case (2 old c cs)
  show ?case
  proof (cases "old \<noteq> [] \<and> take (length old) (c # cs) = old")
    case True
    have "set (drop (length old) (c # cs)) \<subseteq> set (c # cs)" by (rule set_drop_subset)
    with True "2.IH"(1) show ?thesis by auto
  next
    case False
    with "2.IH"(2) show ?thesis by auto
  qed
qed

lemma str_remove_single: "x \<notin> set (str_remove [x] s)"
proof (induction "[x]" s rule: str_remove.induct)
  case 1
  then show ?case by simp
next
  case (2 c cs)
  then show ?case by (cases "c = x") auto
qed

text \<open>
  In \<open>normalize_city\<close> the removal of U+5730 U+533A comes after that of U+533A and finds
  nothing to remove.
\<close>

lemma normalize_city_dead_step:
  "normalize_city s =
     str_remove [30431]
      (str_remove [33258, 27835, 24030]
        (str_remove [21306]
          (str_remove [21439]
            (str_remove [24066] s))))"
proof -
  let ?t = "str_remove [33258, 27835, 24030] (str_remove [21306] (str_remove [21439] (str_remove [24066] s)))"
  have "21306 \<notin> set (str_remove [21306] (str_remove [21439] (str_remove [24066] s)))"
    by (rule str_remove_single)
  then have "21306 \<notin> set ?t"
    using set_str_remove [of "[33258, 27835, 24030]"] by blast
  then have "\<not> str_in [22320, 21306] ?t"
    using str_in_set [of "[22320, 21306]" ?t] by auto
  then have "str_remove [22320, 21306] ?t = ?t" by (rule str_remove_id)
  then show ?thesis by (simp add: normalize_city_def)
qed

lemma spec_normalize_city_eq:
  assumes "\<not> str_in [22320, 21306] s"
  shows "spec_normalize_city s = normalize_city s"
  unfolding spec_normalize_city_def normalize_city_dead_step
  using str_remove_id [OF assms] by simp

text \<open>
  Where U+5730 U+533A does occur the two differ: for U+963F U+91CC U+5730 U+533A the code
  keeps U+5730.
\<close>

lemma normalize_city_keeps_di:
  "normalize_city [38463, 37324, 22320, 21306] = [38463, 37324, 22320]
   \<and> spec_normalize_city [38463, 37324, 22320, 21306] = [38463, 37324]"
  by (simp add: normalize_city_def spec_normalize_city_def)

section \<open>Helper lemmas on the score\<close>

lemma city_match_add: "city_match c b nb s = s + city_match c b nb 0"
  by (simp add: city_match_def)

lemma region_match_add: "region_match c b nb s = s + region_match c b nb 0"
  by (simp add: region_match_def)

lemma distance_match_add:
  "distance_match c la lo s = (s + fst (distance_match c la lo 0), snd (distance_match c la lo 0))"
  by (simp add: distance_match_def split: option.splits)

lemma score_geocoded_strings:
  assumes "hl_city h = PStr hc" and "hl_region h = PStr hr"
  shows "score_geocoded lower c h =
     Inr (city_match c (lower (str_strip hc)) (normalize_city (lower (str_strip hc))) 0
          + region_match c (lower (str_strip hr)) (normalize_region (lower (str_strip hr))) 0
          + fst (distance_match c (hl_latitude h) (hl_longitude h) 0),
          snd (distance_match c (hl_latitude h) (hl_longitude h) 0))"
  unfolding score_geocoded_def Let_def assms strip_value_def
  by (subst distance_match_add, subst region_match_add) simp

lemma score_geocoded_raises:
  assumes "\<not> (\<exists>hc hr. hl_city h = PStr hc \<and> hl_region h = PStr hr)"
  shows "score_geocoded lower c h = Inl AttributeError"
  using assms
  by (cases "hl_city h"; cases "hl_region h") (simp_all add: score_geocoded_def strip_value_def)

lemma score_geocoded_returns:
  assumes "score_geocoded lower c h = Inr r"
  shows "\<exists>hc hr. hl_city h = PStr hc \<and> hl_region h = PStr hr"
proof (rule ccontr)
  assume "\<not> ?thesis"
  from score_geocoded_raises [OF this, of lower c] assms show False by simp
qed

lemma lower_ascii_fun: "lower_ascii = map (\<lambda>c. if 65 \<le> c \<and> c \<le> 90 then c + 32 else c)"
  by (rule ext) (simp add: lower_ascii_def)

lemmas string_eval = str_strip_def is_space_def lower_ascii_fun clean_field_def
  normalize_city_def normalize_region_def spec_normalize_city_def or_empty_def strip_value_def

lemmas scoring_eval = score_candidate_def score_geocoded_def score_text_def city_match_def
  region_match_def distance_match_def text_city_match_def text_name_match_def truthy_num_def
  prepare_client_def china_ascii_def china_cjk_def

lemmas example_defs = client_in_city_def venue_in_city_def client_at_def venue_at_def
  project_named_A_def

text \<open>
  Claim C1, with the guards of the code. For a geocoded venue whose city and region are
  strings, when the venue's lowercased city \<open>b\<close> and the client's lowercased city \<open>a\<close>
  are both non-empty and U+5730 U+533A occurs in neither, the city tier adds exactly one of
  50, 45, 40, 35, 0 to the region and distance tiers, the first match winning: equal raw
  strings 50; equal normalised strings, both non-empty, 45; one raw string inside the other
  40; one normalised string inside the other, both non-empty, 35; else 0. Normalised means
  with the six suffixes stripped. The client city U+5317 U+4EAC U+5E02 against the venue city
  U+5317 U+4EAC, with no region and no coordinates, scores 45 and is retained.
\<close>

theorem city_tier_first_match_wins:
  assumes "hl_success h" and "hl_city h = PStr hc" and "hl_region h = PStr hr"
    and "a = ip_city_lower (prepare_client lower li)"
    and "b = lower (str_strip hc)"
    and "\<not> str_in [22320, 21306] a" and "\<not> str_in [22320, 21306] b"
    and "na = spec_normalize_city a" and "nb = spec_normalize_city b"
    and "a \<noteq> []" and "b \<noteq> []"
  shows "score_candidate lower (prepare_client lower li) (Some h) p =
           Inr ((if a = b then 50
                 else if na \<noteq> [] \<and> nb \<noteq> [] \<and> na = nb then 45
                 else if str_in a b \<or> str_in b a then 40
                 else if na \<noteq> [] \<and> nb \<noteq> [] \<and> (str_in na nb \<or> str_in nb na) then 35
                 else 0)
                + region_match (prepare_client lower li) (lower (str_strip hr))
                    (normalize_region (lower (str_strip hr))) 0
                + fst (distance_match (prepare_client lower li) (hl_latitude h) (hl_longitude h) 0),
                snd (distance_match (prepare_client lower li) (hl_latitude h) (hl_longitude h) 0))
         \<and> (lower [] = [] \<and> lower [21271, 20140, 24066] = [21271, 20140, 24066]
              \<and> lower [21271, 20140] = [21271, 20140] \<longrightarrow>
              match_candidate lower (prepare_client lower (client_in_city [21271, 20140, 24066]))
                (Some (venue_in_city (PStr [21271, 20140]))) (project_named_A 1 None)
               = Inr (Some \<lparr> m_project = project_named_A 1 None, m_score = 45,
                              m_distance_km = None \<rparr>))"
proof
  have na: "ip_city_normalized (prepare_client lower li) = na"
    using assms(4,6,8) by (simp add: prepare_client_def Let_def spec_normalize_city_eq)
  have nb: "normalize_city b = nb"
    using assms(7,9) by (simp add: spec_normalize_city_eq)
  have "city_match (prepare_client lower li) b (normalize_city b) 0 =
          (if a = b then 50
            else if na \<noteq> [] \<and> nb \<noteq> [] \<and> na = nb then 45
            else if str_in a b \<or> str_in b a then 40
            else if na \<noteq> [] \<and> nb \<noteq> [] \<and> (str_in na nb \<or> str_in nb na) then 35
            else 0)"
    unfolding city_match_def na nb using assms(4,10,11) by simp
  then show "score_candidate lower (prepare_client lower li) (Some h) p =
           Inr ((if a = b then 50
                 else if na \<noteq> [] \<and> nb \<noteq> [] \<and> na = nb then 45
                 else if str_in a b \<or> str_in b a then 40
                 else if na \<noteq> [] \<and> nb \<noteq> [] \<and> (str_in na nb \<or> str_in nb na) then 35
                 else 0)
                + region_match (prepare_client lower li) (lower (str_strip hr))
                    (normalize_region (lower (str_strip hr))) 0
                + fst (distance_match (prepare_client lower li) (hl_latitude h) (hl_longitude h) 0),
                snd (distance_match (prepare_client lower li) (hl_latitude h) (hl_longitude h) 0))"
    using assms(1,5) by (simp add: score_candidate_def score_geocoded_strings [OF assms(2,3)])
next
  show "lower [] = [] \<and> lower [21271, 20140, 24066] = [21271, 20140, 24066]
              \<and> lower [21271, 20140] = [21271, 20140] \<longrightarrow>
              match_candidate lower (prepare_client lower (client_in_city [21271, 20140, 24066]))
                (Some (venue_in_city (PStr [21271, 20140]))) (project_named_A 1 None)
               = Inr (Some \<lparr> m_project = project_named_A 1 None, m_score = 45,
                              m_distance_km = None \<rparr>)"
    by (simp add: match_candidate_def vpn_adjust_def scoring_eval str_strip_def is_space_def
        clean_field_def normalize_city_def normalize_region_def strip_value_def
        client_in_city_def venue_in_city_def Let_def)
qed

text \<open>The theorem at the scenario's client and venue.\<close>

theorem city_tier_first_match_wins_witness:
  "score_candidate lower_ascii (prepare_client lower_ascii (client_in_city [21271, 20140, 24066]))
     (Some (venue_in_city (PStr [21271, 20140]))) (project_named_A 1 None) = Inr (45, None)
   \<and> match_candidate lower_ascii (prepare_client lower_ascii (client_in_city [21271, 20140, 24066]))
        (Some (venue_in_city (PStr [21271, 20140]))) (project_named_A 1 None)
       = Inr (Some \<lparr> m_project = project_named_A 1 None, m_score = 45, m_distance_km = None \<rparr>)"
proof -
  let ?li = "client_in_city [21271, 20140, 24066]"
  let ?h = "venue_in_city (PStr [21271, 20140])"
  have h1: "hl_success ?h" and h2: "hl_city ?h = PStr [21271, 20140]"
    and h3: "hl_region ?h = PStr []"
    by (simp_all add: venue_in_city_def)
  have h4: "[21271, 20140, 24066] = ip_city_lower (prepare_client lower_ascii ?li)"
    by (simp add: prepare_client_def client_in_city_def string_eval Let_def)
  have h5: "[21271, 20140] = lower_ascii (str_strip [21271, 20140])"
    by (simp add: string_eval)
  have h6: "\<not> str_in [22320, 21306] [21271, 20140, 24066]"
    and h7: "\<not> str_in [22320, 21306] [21271, 20140]"
    by simp_all
  have h8: "[21271, 20140] = spec_normalize_city [21271, 20140, 24066]"
    and h9: "[21271, 20140] = spec_normalize_city [21271, 20140]"
    by (simp_all add: spec_normalize_city_def)
  have h10: "[21271, 20140, 24066] \<noteq> ([]::nat list)" and h11: "[21271, 20140] \<noteq> ([]::nat list)"
    by simp_all
  from city_tier_first_match_wins [OF h1 h2 h3 h4 h5 h6 h7 h8 h9 h10 h11,
      of "project_named_A 1 None"]
  show ?thesis
    by (simp add: region_match_def distance_match_def truthy_num_def prepare_client_def
        client_in_city_def venue_in_city_def string_eval Let_def)
qed

text \<open>
  Without the guard the claim fails: the client city U+5E02 and the venue city U+533A are
  non-empty and different, their normalised forms are equal (both empty), and the score is 0,
  not 45.
\<close>

theorem city_tier_unguarded_counterexample:
  "ip_city_lower (prepare_client lower_ascii (client_in_city [24066])) = [24066]
   \<and> strip_value (hl_city (venue_in_city (PStr [21306]))) = Inr [21306]
   \<and> lower_ascii [21306] = [21306]
   \<and> spec_normalize_city [24066] = spec_normalize_city [21306]
   \<and> score_candidate lower_ascii (prepare_client lower_ascii (client_in_city [24066]))
        (Some (venue_in_city (PStr [21306]))) (project_named_A 1 None) = Inr (0, None)"
  by (simp add: scoring_eval string_eval client_in_city_def venue_in_city_def Let_def)

text \<open>
  The client city U+963F U+91CC U+5730 U+533A against the venue city U+963F U+91CC: the
  normalised strings differ, since U+5730 is kept, and the tier is the raw substring's 40.
\<close>

lemma city_tier_prefecture_suffix_kept:
  "score_candidate lower_ascii
     (prepare_client lower_ascii (client_in_city [38463, 37324, 22320, 21306]))
     (Some (venue_in_city (PStr [38463, 37324]))) (project_named_A 1 None) = Inr (40, None)"
  by (simp add: scoring_eval string_eval client_in_city_def venue_in_city_def Let_def)

section \<open>Distance\<close>

lemma haversine_km_sym: "haversine_km lat1 lon1 lat2 lon2 = haversine_km lat2 lon2 lat1 lon1"
proof -
  have s: "(sin (radians (y - x) / 2))\<^sup>2 = (sin (radians (x - y) / 2))\<^sup>2" for x y :: real
  proof -
    have "radians (y - x) / 2 = - (radians (x - y) / 2)"
      by (simp add: radians_def field_simps)
    then show ?thesis by simp
  qed
  show ?thesis
    unfolding haversine_km_def Let_def
    by (simp add: s [of lat1 lat2] s [of lon1 lon2] mult.commute)
qed

lemma haversine_km_same: "haversine_km lat lon lat lon = 0"
  by (simp add: haversine_km_def radians_def)

lemma truthy_num_iff: "truthy_num x \<longleftrightarrow> x \<noteq> None \<and> x \<noteq> Some 0"
  by (cases x) (simp_all add: truthy_num_def)

text \<open>
  \<open>calculate_distance\<close> gives the same result when the two points are exchanged, and the
  distance from a point to itself is 0 when neither of its coordinates is zero.
\<close>

lemma calculate_distance_symmetric:
  "calculate_distance lat1 lon1 lat2 lon2 = calculate_distance lat2 lon2 lat1 lon1
   \<and> (lat \<noteq> 0 \<and> lon \<noteq> 0 \<longrightarrow> calculate_distance (Some lat) (Some lon) (Some lat) (Some lon) = Some 0)"
proof
  show "calculate_distance lat1 lon1 lat2 lon2 = calculate_distance lat2 lon2 lat1 lon1"
    unfolding calculate_distance_def
    by (simp add: haversine_km_sym [of "the lat1" "the lon1" "the lat2" "the lon2"] conj_ac)
next
  show "lat \<noteq> 0 \<and> lon \<noteq> 0 \<longrightarrow> calculate_distance (Some lat) (Some lon) (Some lat) (Some lon) = Some 0"
    by (simp add: calculate_distance_def truthy_num_def haversine_km_same)
qed

text \<open>
  Claim C9 at the point (0, 0): the Haversine formula gives the distance 0 from the point to
  itself, and \<open>calculate_distance\<close> returns \<^verbatim>\<open>None\<close>; so it does for two points of the
  equator one degree apart.
\<close>

theorem calculate_distance_origin_is_None:
  "haversine_km 0 0 0 0 = 0
   \<and> calculate_distance (Some 0) (Some 0) (Some 0) (Some 0) = None
   \<and> calculate_distance (Some 0) (Some 0) (Some 0) (Some 0) \<noteq> Some 0
   \<and> calculate_distance (Some 0) (Some 116) (Some 0) (Some 117) = None"
  by (simp add: calculate_distance_def truthy_num_def haversine_km_same)

lemma spec_distance_tier_antimono: "d1 \<le> d2 \<Longrightarrow> spec_distance_tier d2 \<le> spec_distance_tier d1"
  by (simp add: spec_distance_tier_def)

lemma distance_match_present:
  assumes "ip_lat c = Some la" "ip_lon c = Some lo" "la \<noteq> 0" "lo \<noteq> 0" "hla \<noteq> 0" "hlo \<noteq> 0"
  shows "distance_match c (Some hla) (Some hlo) s =
           (s + spec_distance_tier (haversine_km la lo hla hlo), Some (haversine_km la lo hla hlo))"
  using assms
  by (simp add: distance_match_def calculate_distance_def truthy_num_def spec_distance_tier_def)

lemma distance_match_absent:
  assumes "\<not> (truthy_num (ip_lat c) \<and> truthy_num (ip_lon c) \<and> truthy_num hla \<and> truthy_num hlo)"
  shows "distance_match c hla hlo s = (s, None)"
  using assms by (auto simp add: distance_match_def)

text \<open>
  For a geocoded venue whose city and region are strings, when the four coordinates of client
  and venue are present and none of them is zero, the distance tier adds 30, 20, 10, 5 or 0
  by the thresholds 10, 50, 100 and 200 km on the Haversine distance, on top of the city and
  region tiers, and the distance is recorded; a venue whose coordinates (non-zero again) are
  no farther from the same client contributes no less.
\<close>

lemma distance_tier_by_thresholds:
  assumes "hl_success h" and "hl_city h = PStr hc" and "hl_region h = PStr hr"
    and "ip_lat c = Some la" and "ip_lon c = Some lo"
    and "hl_latitude h = Some hla" and "hl_longitude h = Some hlo"
    and "la \<noteq> 0" and "lo \<noteq> 0" and "hla \<noteq> 0" and "hlo \<noteq> 0"
    and "d = haversine_km la lo hla hlo"
  shows "score_candidate lower c (Some h) p =
           Inr (city_match c (lower (str_strip hc)) (normalize_city (lower (str_strip hc))) 0
            + region_match c (lower (str_strip hr)) (normalize_region (lower (str_strip hr))) 0
            + (if d \<le> 10 then 30 else if d \<le> 50 then 20 else if d \<le> 100 then 10
               else if d \<le> 200 then 5 else 0),
            Some d)
         \<and> (\<forall>hla' hlo'. hla' \<noteq> 0 \<and> hlo' \<noteq> 0 \<and> haversine_km la lo hla' hlo' \<le> d \<longrightarrow>
               fst (distance_match c (Some hla) (Some hlo) 0)
                 \<le> fst (distance_match c (Some hla') (Some hlo') 0))"
proof
  have dm: "distance_match c (hl_latitude h) (hl_longitude h) 0
              = (spec_distance_tier d, Some d)"
    using distance_match_present [OF assms(4,5,8,9,10,11), of 0] assms(6,7,12) by simp
  show "score_candidate lower c (Some h) p =
           Inr (city_match c (lower (str_strip hc)) (normalize_city (lower (str_strip hc))) 0
            + region_match c (lower (str_strip hr)) (normalize_region (lower (str_strip hr))) 0
            + (if d \<le> 10 then 30 else if d \<le> 50 then 20 else if d \<le> 100 then 10
               else if d \<le> 200 then 5 else 0),
            Some d)"
    using assms(1) dm
    by (simp add: score_candidate_def score_geocoded_strings [OF assms(2,3)] spec_distance_tier_def)
next
  show "\<forall>hla' hlo'. hla' \<noteq> 0 \<and> hlo' \<noteq> 0 \<and> haversine_km la lo hla' hlo' \<le> d \<longrightarrow>
               fst (distance_match c (Some hla) (Some hlo) 0)
                 \<le> fst (distance_match c (Some hla') (Some hlo') 0)"
  proof (intro allI impI)
    fix hla' hlo'
    assume a: "hla' \<noteq> 0 \<and> hlo' \<noteq> 0 \<and> haversine_km la lo hla' hlo' \<le> d"
    have "distance_match c (Some hla') (Some hlo') 0
            = (spec_distance_tier (haversine_km la lo hla' hlo'), Some (haversine_km la lo hla' hlo'))"
      using distance_match_present [OF assms(4,5,8,9), of hla' hlo' 0] a by simp
    moreover have "distance_match c (Some hla) (Some hlo) 0 = (spec_distance_tier d, Some d)"
      using distance_match_present [OF assms(4,5,8,9,10,11), of 0] assms(12) by simp
    ultimately show "fst (distance_match c (Some hla) (Some hlo) 0)
                 \<le> fst (distance_match c (Some hla') (Some hlo') 0)"
      using a spec_distance_tier_antimono by simp
  qed
qed

text \<open>
  Claim C5 at a client and a venue of the equator: both carry coordinates, latitude 0 and
  longitude 116, their Haversine distance is 0 km, and the candidate's score is 0 with no
  distance recorded, where a venue at the client's position (39, 116) scores 30 with the
  distance 0 recorded.
\<close>

theorem distance_tier_zero_coordinate:
  "li_latitude (client_at [] 0 116) = Some 0 \<and> li_longitude (client_at [] 0 116) = Some 116
   \<and> hl_latitude (venue_at 0 116) = Some 0 \<and> hl_longitude (venue_at 0 116) = Some 116
   \<and> haversine_km 0 116 0 116 = 0
   \<and> score_candidate lower_ascii (prepare_client lower_ascii (client_at [] 0 116))
        (Some (venue_at 0 116)) (project_named_A 1 None) = Inr (0, None)
   \<and> score_candidate lower_ascii (prepare_client lower_ascii (client_at [] 39 116))
        (Some (venue_at 39 116)) (project_named_A 1 None) = Inr (30, Some 0)"
  by (simp add: haversine_km_same calculate_distance_def scoring_eval string_eval example_defs
      Let_def)

lemma calculate_distance_None_iff:
  "calculate_distance lat1 lon1 lat2 lon2 = None
     \<longleftrightarrow> (\<exists>x \<in> {lat1, lon1, lat2, lon2}. x = None \<or> x = Some 0)"
  by (auto simp add: calculate_distance_def truthy_num_iff)

text \<open>
  Claim C10. \<open>calculate_distance\<close> returns \<^verbatim>\<open>None\<close> exactly when one of its arguments is
  \<^verbatim>\<open>None\<close> or 0; the distance tier changes the score or records a distance only when the
  four coordinates are present and non-zero; a geocoded venue for which one of them is
  \<^verbatim>\<open>None\<close> or 0 gets the city and region tiers only and no distance: this is its score
  when its city and region are strings, and whenever it has a score at all; and an entry
  without distance sorts after an entry of the same score with a distance.
\<close>

theorem zero_coordinate_treated_as_absent:
  "(calculate_distance lat1 lon1 lat2 lon2 = None
      \<longleftrightarrow> (\<exists>x \<in> {lat1, lon1, lat2, lon2}. x = None \<or> x = Some 0))
   \<and> (snd (distance_match c hlat hlon s) \<noteq> None \<or> fst (distance_match c hlat hlon s) \<noteq> s
        \<longrightarrow> (\<forall>x \<in> {ip_lat c, ip_lon c, hlat, hlon}. x \<noteq> None \<and> x \<noteq> Some 0))
   \<and> (hl_success h \<and> hl_city h = PStr hc \<and> hl_region h = PStr hr
        \<and> (\<exists>x \<in> {ip_lat c, ip_lon c, hl_latitude h, hl_longitude h}. x = None \<or> x = Some 0)
        \<longrightarrow> score_candidate lower c (Some h) p =
              Inr (city_match c (lower (str_strip hc)) (normalize_city (lower (str_strip hc))) 0
               + region_match c (lower (str_strip hr))
                   (normalize_region (lower (str_strip hr))) 0,
               None))
   \<and> (hl_success h
        \<and> (\<exists>x \<in> {ip_lat c, ip_lon c, hl_latitude h, hl_longitude h}. x = None \<or> x = Some 0)
        \<and> score_candidate lower c (Some h) p = Inr (sc, dk)
        \<longrightarrow> dk = None
            \<and> (\<exists>vc vr. hl_city h = PStr vc \<and> hl_region h = PStr vr
                  \<and> sc = city_match c (lower (str_strip vc))
                             (normalize_city (lower (str_strip vc))) 0
                         + region_match c (lower (str_strip vr))
                             (normalize_region (lower (str_strip vr))) 0))
   \<and> (m_score x = m_score y \<and> m_distance_km x = None \<and> m_distance_km y \<noteq> None
        \<longrightarrow> rank_key y < rank_key x)"
proof (intro conjI)
  show "calculate_distance lat1 lon1 lat2 lon2 = None
      \<longleftrightarrow> (\<exists>x \<in> {lat1, lon1, lat2, lon2}. x = None \<or> x = Some 0)"
    by (rule calculate_distance_None_iff)
next
  show "snd (distance_match c hlat hlon s) \<noteq> None \<or> fst (distance_match c hlat hlon s) \<noteq> s
        \<longrightarrow> (\<forall>x \<in> {ip_lat c, ip_lon c, hlat, hlon}. x \<noteq> None \<and> x \<noteq> Some 0)"
  proof
    assume a: "snd (distance_match c hlat hlon s) \<noteq> None \<or> fst (distance_match c hlat hlon s) \<noteq> s"
    have "truthy_num (ip_lat c) \<and> truthy_num (ip_lon c) \<and> truthy_num hlat \<and> truthy_num hlon"
    proof (rule ccontr)
      assume "\<not> ?thesis"
      from distance_match_absent [OF this] a show False by simp
    qed
    then show "\<forall>x \<in> {ip_lat c, ip_lon c, hlat, hlon}. x \<noteq> None \<and> x \<noteq> Some 0"
      by (simp add: truthy_num_iff)
  qed
next
  show "hl_success h \<and> hl_city h = PStr hc \<and> hl_region h = PStr hr
        \<and> (\<exists>x \<in> {ip_lat c, ip_lon c, hl_latitude h, hl_longitude h}. x = None \<or> x = Some 0)
        \<longrightarrow> score_candidate lower c (Some h) p =
              Inr (city_match c (lower (str_strip hc)) (normalize_city (lower (str_strip hc))) 0
               + region_match c (lower (str_strip hr))
                   (normalize_region (lower (str_strip hr))) 0,
               None)"
  proof
    assume a: "hl_success h \<and> hl_city h = PStr hc \<and> hl_region h = PStr hr
        \<and> (\<exists>x \<in> {ip_lat c, ip_lon c, hl_latitude h, hl_longitude h}. x = None \<or> x = Some 0)"
    then have "\<not> (truthy_num (ip_lat c) \<and> truthy_num (ip_lon c)
                  \<and> truthy_num (hl_latitude h) \<and> truthy_num (hl_longitude h))"
      by (auto simp add: truthy_num_iff)
    then have dm: "distance_match c (hl_latitude h) (hl_longitude h) 0 = (0, None)"
      by (rule distance_match_absent)
    from a have s: "hl_city h = PStr hc" "hl_region h = PStr hr" by simp_all
    show "score_candidate lower c (Some h) p =
              Inr (city_match c (lower (str_strip hc)) (normalize_city (lower (str_strip hc))) 0
               + region_match c (lower (str_strip hr))
                   (normalize_region (lower (str_strip hr))) 0,
               None)"
      using a dm by (simp add: score_candidate_def score_geocoded_strings [OF s])
  qed
next
  show "hl_success h
        \<and> (\<exists>x \<in> {ip_lat c, ip_lon c, hl_latitude h, hl_longitude h}. x = None \<or> x = Some 0)
        \<and> score_candidate lower c (Some h) p = Inr (sc, dk)
        \<longrightarrow> dk = None
            \<and> (\<exists>vc vr. hl_city h = PStr vc \<and> hl_region h = PStr vr
                  \<and> sc = city_match c (lower (str_strip vc))
                             (normalize_city (lower (str_strip vc))) 0
                         + region_match c (lower (str_strip vr))
                             (normalize_region (lower (str_strip vr))) 0)"
  proof
    assume a: "hl_success h
        \<and> (\<exists>x \<in> {ip_lat c, ip_lon c, hl_latitude h, hl_longitude h}. x = None \<or> x = Some 0)
        \<and> score_candidate lower c (Some h) p = Inr (sc, dk)"
    then have "\<not> (truthy_num (ip_lat c) \<and> truthy_num (ip_lon c)
                  \<and> truthy_num (hl_latitude h) \<and> truthy_num (hl_longitude h))"
      by (auto simp add: truthy_num_iff)
    then have dm: "distance_match c (hl_latitude h) (hl_longitude h) 0 = (0, None)"
      by (rule distance_match_absent)
    from a have "hl_success h" and "score_candidate lower c (Some h) p = Inr (sc, dk)"
      by fast+
    then have g: "score_geocoded lower c h = Inr (sc, dk)"
      by (simp add: score_candidate_def)
    from score_geocoded_returns [OF g]
    obtain vc vr where s: "hl_city h = PStr vc" "hl_region h = PStr vr" by blast
    from g dm have "dk = None"
      and "sc = city_match c (lower (str_strip vc)) (normalize_city (lower (str_strip vc))) 0
                + region_match c (lower (str_strip vr))
                    (normalize_region (lower (str_strip vr))) 0"
      unfolding score_geocoded_strings [OF s] by simp_all
    with s show "dk = None
            \<and> (\<exists>vc vr. hl_city h = PStr vc \<and> hl_region h = PStr vr
                  \<and> sc = city_match c (lower (str_strip vc))
                             (normalize_city (lower (str_strip vc))) 0
                         + region_match c (lower (str_strip vr))
                             (normalize_region (lower (str_strip vr))) 0)"
      by blast
  qed
next
  show "m_score x = m_score y \<and> m_distance_km x = None \<and> m_distance_km y \<noteq> None
        \<longrightarrow> rank_key y < rank_key x"
    by (auto simp add: rank_key_def)
qed

text \<open>The theorem for a venue on the equator.\<close>

theorem zero_coordinate_treated_as_absent_witness:
  "calculate_distance (Some 0) (Some 116) (Some 39) (Some 116) = None
   \<and> score_candidate lower_ascii (prepare_client lower_ascii (client_at [] 39 116))
       (Some (venue_at 0 116)) (project_named_A 1 None) = Inr (0, None)
   \<and> rank_key \<lparr> m_project = project_named_A 2 None, m_score = 30, m_distance_km = Some 150 \<rparr>
       < rank_key \<lparr> m_project = project_named_A 1 None, m_score = 30, m_distance_km = None \<rparr>"
  using zero_coordinate_treated_as_absent
    [where ?lat1.0 = "Some 0" and ?lon1.0 = "Some 116" and ?lat2.0 = "Some 39"
       and ?lon2.0 = "Some 116"
       and c = "prepare_client lower_ascii (client_at [] 39 116)" and hlat = "Some 0"
       and hlon = "Some 116" and s = 0
       and h = "venue_at 0 116" and hc = "[]" and hr = "[]" and lower = lower_ascii
       and p = "project_named_A 1 None" and sc = 0 and dk = None
       and x = "\<lparr> m_project = project_named_A 1 None, m_score = 30, m_distance_km = None \<rparr>"
       and y = "\<lparr> m_project = project_named_A 2 None, m_score = 30,
                  m_distance_km = Some 150 \<rparr>"]
  by (simp add: city_match_def region_match_def prepare_client_def string_eval example_defs Let_def)

section \<open>Threshold, ranking and the VPN step\<close>

lemma match_candidate_final:
  "match_candidate lower (prepare_client lower li) (hls (p_id p)) p = Inr (Some m)
     \<longleftrightarrow> (\<exists>s. final_score lower li hls p = Inr s \<and> 10 \<le> s \<and> m_project m = p \<and> m_score m = s
              \<and> (\<exists>raw. score_candidate lower (prepare_client lower li) (hls (p_id p)) p
                          = Inr (raw, m_distance_km m)))"
  by (cases "score_candidate lower (prepare_client lower li) (hls (p_id p)) p")
     (auto simp add: match_candidate_def final_score_def Let_def split: prod.splits)

lemma match_candidate_returns:
  "(\<exists>r. match_candidate lower c h p = Inr r) \<longleftrightarrow> (\<exists>r. score_candidate lower c h p = Inr r)"
  by (cases "score_candidate lower c h p")
     (auto simp add: match_candidate_def Let_def split: prod.splits)

lemma score_all_set:
  "score_all lower c hls ps = Inr ms \<Longrightarrow>
     set ms = {m. \<exists>p \<in> set ps. match_candidate lower c (hls (p_id p)) p = Inr (Some m)}"
proof (induction ps arbitrary: ms)
  case Nil
  then show ?case by simp
next
  case (Cons p ps)
  from Cons.prems obtain entry entries
    where e: "match_candidate lower c (hls (p_id p)) p = Inr entry"
      and es: "score_all lower c hls ps = Inr entries"
      and ms: "ms = (case entry of None \<Rightarrow> entries | Some x \<Rightarrow> x # entries)"
    by (auto split: sum.splits)
  from Cons.IH [OF es] e ms show ?case
    by (cases entry) auto
qed

lemma score_all_returns:
  "(\<forall>p \<in> set ps. \<exists>r. match_candidate lower c (hls (p_id p)) p = Inr r)
     \<Longrightarrow> \<exists>ms. score_all lower c hls ps = Inr ms"
proof (induction ps)
  case Nil
  then show ?case by simp
next
  case (Cons p ps)
  then obtain r ms where "match_candidate lower c (hls (p_id p)) p = Inr r"
    and "score_all lower c hls ps = Inr ms"
    by auto
  then show ?case by simp
qed

lemma score_all_raises:
  "p \<in> set ps \<Longrightarrow> match_candidate lower c (hls (p_id p)) p = Inl e
     \<Longrightarrow> \<exists>e'. score_all lower c hls ps = Inl e'"
proof (induction ps)
  case Nil
  then show ?case by simp
next
  case (Cons q qs)
  show ?case
  proof (cases "match_candidate lower c (hls (p_id q)) q")
    case (Inl a)
    then show ?thesis by simp
  next
    case (Inr b)
    with Cons.prems have "p \<in> set qs" by auto
    from Cons.IH [OF this Cons.prems(2)] Inr show ?thesis by auto
  qed
qed

lemma set_matched_projects:
  assumes "matched_projects lower li hls ps = Inr ms"
  shows "set ms =
     {m. li_success li \<and> (\<exists>p \<in> set ps. is_valid_project p
          \<and> match_candidate lower (prepare_client lower li) (hls (p_id p)) p = Inr (Some m))}"
proof (cases "li_success li")
  case False
  with assms show ?thesis by (simp add: matched_projects_def)
next
  case True
  show ?thesis
  proof (cases "filter is_valid_project ps = []")
    case e: True
    then have "\<forall>p \<in> set ps. \<not> is_valid_project p"
      by (simp add: filter_empty_conv)
    with e True assms show ?thesis
      by (auto simp add: matched_projects_def)
  next
    case False
    with True assms obtain entries
      where es: "score_all lower (prepare_client lower li) hls (filter is_valid_project ps)
                   = Inr entries"
        and ms: "ms = sort_key rank_key entries"
      by (auto simp add: matched_projects_def Let_def split: sum.splits)
    from score_all_set [OF es] ms True show ?thesis by auto
  qed
qed

text \<open>
  In a run that returns, a project is in the output exactly when the client's location
  succeeded, the project is a candidate (it is in the input and has a name or a hospital
  name) and its score after the VPN step is at least 10; every retained entry carries that
  score.
\<close>

lemma threshold_retains_exactly:
  assumes "match_projects_by_location lower li hls ps = Inr out"
  shows "(p \<in> set out
      \<longleftrightarrow> li_success li \<and> p \<in> set ps \<and> is_valid_project p
           \<and> (\<exists>s. final_score lower li hls p = Inr s \<and> 10 \<le> s))"
proof -
  from assms obtain ms where ms: "matched_projects lower li hls ps = Inr ms"
    and out: "out = map m_project ms"
    by (auto simp add: match_projects_by_location_def split: sum.splits)
  show ?thesis
  proof
    assume "p \<in> set out"
    then obtain m where m: "m \<in> set ms" "m_project m = p" using out by auto
    from m(1) have "li_success li" and "\<exists>q \<in> set ps. is_valid_project q
          \<and> match_candidate lower (prepare_client lower li) (hls (p_id q)) q = Inr (Some m)"
      unfolding set_matched_projects [OF ms] by simp_all
    then obtain q where q: "q \<in> set ps" "is_valid_project q"
       "match_candidate lower (prepare_client lower li) (hls (p_id q)) q = Inr (Some m)"
      by blast
    from q(3) have "m_project m = q" and "\<exists>s. final_score lower li hls q = Inr s \<and> 10 \<le> s"
      unfolding match_candidate_final by auto
    with q m(2) \<open>li_success li\<close>
    show "li_success li \<and> p \<in> set ps \<and> is_valid_project p
           \<and> (\<exists>s. final_score lower li hls p = Inr s \<and> 10 \<le> s)"
      by simp
  next
    assume a: "li_success li \<and> p \<in> set ps \<and> is_valid_project p
           \<and> (\<exists>s. final_score lower li hls p = Inr s \<and> 10 \<le> s)"
    then obtain s where s: "final_score lower li hls p = Inr s" "10 \<le> s" by blast
    then obtain raw d
      where r: "score_candidate lower (prepare_client lower li) (hls (p_id p)) p = Inr (raw, d)"
      by (auto simp add: final_score_def split: sum.splits prod.splits)
    let ?m = "\<lparr> m_project = p, m_score = s, m_distance_km = d \<rparr>"
    have "match_candidate lower (prepare_client lower li) (hls (p_id p)) p = Inr (Some ?m)"
      unfolding match_candidate_final using s r by simp
    with a have "?m \<in> set ms"
      unfolding set_matched_projects [OF ms] by auto
    then have "m_project ?m \<in> m_project ` set ms" by (rule imageI)
    then show "p \<in> set out" unfolding out by simp
  qed
qed

text \<open>
  Claim C3 on a run with two candidates. For the second, the geocoding provider has answered
  with an empty list as the city, and \<open>get_hospital_location\<close> stores and returns it as it
  is. The first candidate's score after the VPN step is 45; the run raises
  \<^verbatim>\<open>AttributeError\<close> in the second round and returns no list at all, where the run over
  the first candidate alone returns it.
\<close>

theorem threshold_run_raises_on_list_city:
  "fst (get_hospital_location geo_env_city_is_list (Some [66]) None None [])
     = venues_second_city_is_list 2
   \<and> final_score lower_ascii (client_in_city [21271, 20140, 24066]) venues_second_city_is_list
       (project_named_A 1 None) = Inr 45
   \<and> match_projects_by_location lower_ascii (client_in_city [21271, 20140, 24066])
       venues_second_city_is_list [project_named_A 1 None, project_named_A 2 None]
      = Inl AttributeError
   \<and> match_projects_by_location lower_ascii (client_in_city [21271, 20140, 24066])
       venues_second_city_is_list [project_named_A 1 None]
      = Inr [project_named_A 1 None]"
proof (intro conjI)
  show "fst (get_hospital_location geo_env_city_is_list (Some [66]) None None [])
     = venues_second_city_is_list 2"
    by (simp add: get_hospital_location_def geo_env_city_is_list_def geocode_result_def
        cache_get_def or_empty_def jget_def jget_default_def venues_second_city_is_list_def
        venue_at_def Let_def)
  have v: "is_valid_project (project_named_A i None)" for i
    by (simp add: is_valid_project_def project_named_A_def string_eval)
  have ids: "p_id (project_named_A i None) = i" for i
    by (simp add: project_named_A_def)
  have s: "li_success (client_in_city [21271, 20140, 24066])" by (simp add: client_in_city_def)
  have m1: "match_candidate lower_ascii (prepare_client lower_ascii (client_in_city [21271, 20140, 24066]))
              (venues_second_city_is_list 1) (project_named_A 1 None)
            = Inr (Some \<lparr> m_project = project_named_A 1 None, m_score = 45, m_distance_km = None \<rparr>)"
    by (simp add: match_candidate_def vpn_adjust_def scoring_eval string_eval example_defs
        venues_second_city_is_list_def Let_def)
  have m2: "match_candidate lower_ascii (prepare_client lower_ascii (client_in_city [21271, 20140, 24066]))
              (venues_second_city_is_list 2) (project_named_A 2 None) = Inl AttributeError"
    by (simp add: match_candidate_def score_candidate_def score_geocoded_def strip_value_def
        venues_second_city_is_list_def venue_at_def)
  show "final_score lower_ascii (client_in_city [21271, 20140, 24066]) venues_second_city_is_list
       (project_named_A 1 None) = Inr 45"
    by (simp add: final_score_def vpn_adjust_def scoring_eval string_eval example_defs
        venues_second_city_is_list_def Let_def)
  show "match_projects_by_location lower_ascii (client_in_city [21271, 20140, 24066])
       venues_second_city_is_list [project_named_A 1 None, project_named_A 2 None]
      = Inl AttributeError"
    unfolding match_projects_by_location_def matched_projects_def Let_def
    using s v m1 m2 by (simp add: ids)
  show "match_projects_by_location lower_ascii (client_in_city [21271, 20140, 24066])
       venues_second_city_is_list [project_named_A 1 None]
      = Inr [project_named_A 1 None]"
    unfolding match_projects_by_location_def matched_projects_def Let_def
    using s v m1 by (simp add: ids)
qed

lemma rank_key_le_spec: "rank_key x \<le> rank_key y \<Longrightarrow> spec_ranked_before x y"
  by (auto simp add: rank_key_def spec_ranked_before_def split: option.splits)

lemma score_candidate_returns:
  assumes "text_fields_are_strings h"
  shows "\<exists>r. score_candidate lower c h p = Inr r"
proof (cases h)
  case None
  then show ?thesis by (simp add: score_candidate_def)
next
  case (Some v)
  with assms obtain hc hr where "hl_city v = PStr hc" "hl_region v = PStr hr"
    by (auto simp add: text_fields_are_strings_def split: pyval.splits)
  from score_geocoded_strings [OF this] Some show ?thesis
    by (simp add: score_candidate_def)
qed

lemma matched_projects_returns:
  assumes "\<forall>p \<in> set ps. text_fields_are_strings (hls (p_id p))"
  shows "\<exists>ms. matched_projects lower li hls ps = Inr ms"
proof -
  have "\<forall>p \<in> set (filter is_valid_project ps).
          \<exists>r. match_candidate lower (prepare_client lower li) (hls (p_id p)) p = Inr r"
    using assms score_candidate_returns by (simp add: match_candidate_returns)
  from score_all_returns [OF this]
  obtain entries
    where "score_all lower (prepare_client lower li) hls (filter is_valid_project ps) = Inr entries"
    by blast
  then show ?thesis
    by (simp add: matched_projects_def Let_def)
qed

text \<open>
  Claim C4. When the run returns, the list \<^verbatim>\<open>matched_projects\<close> is ordered by descending
  score, at equal score by ascending distance with the entries without distance last, and
  the output is this list's projects in the same order. The run returns whenever the city
  and the region of every geocode result are strings.
\<close>

theorem output_ranked_by_score_then_distance:
  "(matched_projects lower li hls ps = Inr ms \<longrightarrow>
      sorted_wrt spec_ranked_before ms
      \<and> match_projects_by_location lower li hls ps = Inr (map m_project ms))
   \<and> ((\<forall>p \<in> set ps. text_fields_are_strings (hls (p_id p))) \<longrightarrow>
        (\<exists>ms'. matched_projects lower li hls ps = Inr ms'))"
proof (intro conjI impI)
  assume a: "matched_projects lower li hls ps = Inr ms"
  have "\<exists>entries. ms = sort_key rank_key entries"
  proof (cases "li_success li \<and> filter is_valid_project ps \<noteq> []")
    case True
    with a show ?thesis
      by (auto simp add: matched_projects_def Let_def split: sum.splits)
  next
    case False
    with a have "ms = []"
      by (auto simp add: matched_projects_def Let_def split: if_splits)
    then have "ms = sort_key rank_key []" by simp
    then show ?thesis by blast
  qed
  then obtain entries where "ms = sort_key rank_key entries" by blast
  then have "sorted (map rank_key ms)" by simp
  then have "sorted_wrt (\<lambda>x y. rank_key x \<le> rank_key y) ms"
    by (simp add: sorted_map)
  then show "sorted_wrt spec_ranked_before ms"
    by (rule sorted_wrt_mono_rel [rotated]) (rule rank_key_le_spec)
  show "match_projects_by_location lower li hls ps = Inr (map m_project ms)"
    using a by (simp add: match_projects_by_location_def)
next
  assume "\<forall>p \<in> set ps. text_fields_are_strings (hls (p_id p))"
  then show "\<exists>ms'. matched_projects lower li hls ps = Inr ms'"
    by (rule matched_projects_returns)
qed

text \<open>
  On the scores a candidate can reach, \<^verbatim>\<open>int(score * 0.7)\<close> is the integer part of
  seven tenths of the score, but for 90: the product rounds to the double just below 63.
\<close>

lemma int_times_0_7_geocoded:
  assumes "a \<in> {0, 35, 40, 45, 50}" and "b \<in> {0, 15, 20, 25, 30}" and "d \<in> {0, 5, 10, 20, 30}"
  shows "int_times_0_7 (a + b + d) = (if a + b + d = 90 then 62 else 7 * (a + b + d) div 10)"
  using assms
  by (elim insertE emptyE)
     (simp_all add: int_times_0_7_def round_to_53_bits_def Let_def bit_length.simps)

lemma int_times_0_7_text:
  assumes "a \<in> {0, 22, 25, 28, 30}" and "b \<in> {0, 10, 15, 25}"
  shows "int_times_0_7 (a + b) = 7 * (a + b) div 10"
  using assms
  by (elim insertE emptyE)
     (simp_all add: int_times_0_7_def round_to_53_bits_def Let_def bit_length.simps)

lemma city_match_range: "city_match c b nb 0 \<in> {0, 35, 40, 45, 50}"
  by (simp add: city_match_def)

lemma region_match_range: "region_match c b nb 0 \<in> {0, 15, 20, 25, 30}"
  by (simp add: region_match_def)

lemma distance_match_range: "fst (distance_match c la lo 0) \<in> {0, 5, 10, 20, 30}"
  by (simp add: distance_match_def split: option.splits)

lemma score_text_range: "0 \<le> score_text lower c p \<and> score_text lower c p \<le> 55"
  by (simp add: score_text_def text_city_match_def text_name_match_def Let_def)

lemma text_city_match_range: "text_city_match c r nr 0 \<in> {0, 22, 25, 28, 30}"
  by (simp add: text_city_match_def)

lemma text_name_match_range: "text_name_match c t 0 \<in> {0, 10, 15, 25}"
  by (simp add: text_name_match_def Let_def)

lemma int_times_0_7_candidate:
  assumes "score_candidate lower c h p = Inr (raw, d)"
  shows "int_times_0_7 raw = (if raw = 90 then 62 else 7 * raw div 10)"
proof (cases "\<exists>v. h = Some v \<and> hl_success v")
  case True
  then obtain v where v: "h = Some v" "hl_success v" by blast
  with assms have g: "score_geocoded lower c v = Inr (raw, d)"
    by (simp add: score_candidate_def)
  from score_geocoded_returns [OF g]
  obtain hc hr where s: "hl_city v = PStr hc" "hl_region v = PStr hr" by blast
  from g have "raw = city_match c (lower (str_strip hc)) (normalize_city (lower (str_strip hc))) 0
          + region_match c (lower (str_strip hr)) (normalize_region (lower (str_strip hr))) 0
          + fst (distance_match c (hl_latitude v) (hl_longitude v) 0)"
    unfolding score_geocoded_strings [OF s] by simp
  then show ?thesis
    using int_times_0_7_geocoded [OF city_match_range region_match_range distance_match_range]
    by simp
next
  case False
  with assms have t: "raw = score_text lower c p"
    by (cases h) (auto simp add: score_candidate_def split: if_splits)
  have s: "score_text lower c p =
             text_city_match c (lower (str_strip (or_empty (p_region p))))
               (normalize_city (lower (str_strip (or_empty (p_region p))))) 0
             + text_name_match c
                 (lower (str_strip (or_empty (p_name p)) @ [32]
                             @ str_strip (or_empty (p_hospital_name p)))) 0"
    unfolding score_text_def Let_def
    by (simp add: text_name_match_def Let_def)
  have le: "score_text lower c p \<le> 55" using score_text_range [of lower c p] by simp
  have "int_times_0_7 (score_text lower c p) = 7 * score_text lower c p div 10"
    unfolding s
    by (rule int_times_0_7_text [OF text_city_match_range text_name_match_range])
  with t le show ?thesis by simp
qed

text \<open>
  Claim C2. The VPN flag holds exactly when the client's cleaned, lowercased country is
  non-empty and contains neither "china" nor U+4E2D U+56FD. For a candidate with the raw
  score \<open>raw\<close>, the score the threshold is applied to is \<^verbatim>\<open>int(raw * 0.7)\<close> under the
  flag, which is the integer part of seven tenths of \<open>raw\<close>, but 62 for 90, where the
  product of the doubles lies below 63; without the flag it is \<open>raw\<close>. In a run that
  returns, every retained entry carries that score, which is at least 10. A raw score of 40
  becomes 28.
\<close>

theorem vpn_penalty_before_threshold:
  "(is_vpn (prepare_client lower li) \<longleftrightarrow>
      lower (clean_field (li_country li)) \<noteq> []
      \<and> \<not> str_in china_ascii (lower (clean_field (li_country li)))
      \<and> \<not> str_in china_cjk (lower (clean_field (li_country li))))
   \<and> (score_candidate lower (prepare_client lower li) (hls (p_id p)) p = Inr (raw, d) \<longrightarrow>
        final_score lower li hls p =
          Inr (if is_vpn (prepare_client lower li)
               then (if raw = 90 then 62 else 7 * raw div 10)
               else raw))
   \<and> (matched_projects lower li hls ps = Inr ms \<longrightarrow>
        (\<forall>m \<in> set ms. final_score lower li hls (m_project m) = Inr (m_score m)
                        \<and> 10 \<le> m_score m))
   \<and> int_times_0_7 40 = 28"
proof (intro conjI)
  show "is_vpn (prepare_client lower li) \<longleftrightarrow>
      lower (clean_field (li_country li)) \<noteq> []
      \<and> \<not> str_in china_ascii (lower (clean_field (li_country li)))
      \<and> \<not> str_in china_cjk (lower (clean_field (li_country li)))"
    by (simp add: prepare_client_def Let_def)
next
  show "score_candidate lower (prepare_client lower li) (hls (p_id p)) p = Inr (raw, d) \<longrightarrow>
        final_score lower li hls p =
          Inr (if is_vpn (prepare_client lower li)
               then (if raw = 90 then 62 else 7 * raw div 10)
               else raw)"
  proof
    assume a: "score_candidate lower (prepare_client lower li) (hls (p_id p)) p = Inr (raw, d)"
    from int_times_0_7_candidate [OF a] a
    show "final_score lower li hls p =
          Inr (if is_vpn (prepare_client lower li)
               then (if raw = 90 then 62 else 7 * raw div 10)
               else raw)"
      by (simp add: final_score_def vpn_adjust_def)
  qed
next
  show "matched_projects lower li hls ps = Inr ms \<longrightarrow>
        (\<forall>m \<in> set ms. final_score lower li hls (m_project m) = Inr (m_score m)
                        \<and> 10 \<le> m_score m)"
  proof (intro impI ballI)
    fix m
    assume a: "matched_projects lower li hls ps = Inr ms" and m: "m \<in> set ms"
    from m obtain q
      where "match_candidate lower (prepare_client lower li) (hls (p_id q)) q = Inr (Some m)"
      unfolding set_matched_projects [OF a] by blast
    then show "final_score lower li hls (m_project m) = Inr (m_score m) \<and> 10 \<le> m_score m"
      unfolding match_candidate_final by auto
  qed
next
  show "int_times_0_7 40 = 28"
    by (simp add: int_times_0_7_def round_to_53_bits_def Let_def bit_length.simps)
qed

text \<open>
  The theorem for a client in "United States" whose city "ab" is inside the venue's city
  "abc": the raw score 40 becomes 28, and the entry is retained with the score 28.
\<close>

theorem vpn_penalty_before_threshold_witness:
  "is_vpn (prepare_client lower_ascii ((client_in_city [97, 98])
             \<lparr> li_country := PStr [85, 110, 105, 116, 101, 100, 32, 83, 116, 97, 116, 101, 115] \<rparr>))
   \<and> score_candidate lower_ascii
            (prepare_client lower_ascii ((client_in_city [97, 98])
               \<lparr> li_country := PStr [85, 110, 105, 116, 101, 100, 32, 83, 116, 97, 116, 101, 115] \<rparr>))
            (Some (venue_in_city (PStr [97, 98, 99]))) (project_named_A 1 None) = Inr (40, None)
   \<and> final_score lower_ascii ((client_in_city [97, 98])
             \<lparr> li_country := PStr [85, 110, 105, 116, 101, 100, 32, 83, 116, 97, 116, 101, 115] \<rparr>)
         (\<lambda>i. Some (venue_in_city (PStr [97, 98, 99]))) (project_named_A 1 None) = Inr 28
   \<and> matched_projects lower_ascii ((client_in_city [97, 98])
             \<lparr> li_country := PStr [85, 110, 105, 116, 101, 100, 32, 83, 116, 97, 116, 101, 115] \<rparr>)
         (\<lambda>i. Some (venue_in_city (PStr [97, 98, 99]))) [project_named_A 1 None]
       = Inr [\<lparr> m_project = project_named_A 1 None, m_score = 28, m_distance_km = None \<rparr>]"
proof -
  let ?li = "(client_in_city [97, 98])
             \<lparr> li_country := PStr [85, 110, 105, 116, 101, 100, 32, 83, 116, 97, 116, 101, 115] \<rparr>"
  let ?hls = "\<lambda>i::int. Some (venue_in_city (PStr [97, 98, 99]))"
  have sc: "score_candidate lower_ascii (prepare_client lower_ascii ?li)
              (?hls (p_id (project_named_A 1 None))) (project_named_A 1 None) = Inr (40, None)"
    by (simp add: scoring_eval string_eval example_defs Let_def)
  have v: "is_valid_project (project_named_A 1 None)"
    by (simp add: is_valid_project_def project_named_A_def string_eval)
  have s: "li_success ?li" by (simp add: client_in_city_def)
  have vpn: "is_vpn (prepare_client lower_ascii ?li)"
    by (simp add: prepare_client_def string_eval example_defs china_ascii_def china_cjk_def Let_def)
  have i40: "int_times_0_7 40 = 28"
    by (simp add: int_times_0_7_def round_to_53_bits_def Let_def bit_length.simps)
  have mc: "match_candidate lower_ascii (prepare_client lower_ascii ?li)
              (?hls (p_id (project_named_A 1 None))) (project_named_A 1 None)
            = Inr (Some \<lparr> m_project = project_named_A 1 None, m_score = 28, m_distance_km = None \<rparr>)"
    unfolding match_candidate_def sc using vpn i40
    by (simp add: vpn_adjust_def)
  have mp: "matched_projects lower_ascii ?li ?hls [project_named_A 1 None]
       = Inr [\<lparr> m_project = project_named_A 1 None, m_score = 28, m_distance_km = None \<rparr>]"
    unfolding matched_projects_def Let_def
    using s v mc by simp
  from vpn_penalty_before_threshold
    [of lower_ascii ?li ?hls "project_named_A 1 None" 40 None "[project_named_A 1 None]"
        "[\<lparr> m_project = project_named_A 1 None, m_score = 28, m_distance_km = None \<rparr>]"]
  show ?thesis using sc mp vpn by simp
qed

text \<open>
  The theorem on a run with the scores 30 (no distance), 30 (0 km) and 50, given in this
  order and returned in the reverse one.
\<close>

theorem output_ranked_by_score_then_distance_witness:
  "sorted_wrt spec_ranked_before
     [\<lparr> m_project = project_named_A 3 None, m_score = 50, m_distance_km = None \<rparr>,
      \<lparr> m_project = project_named_A 2 None, m_score = 30, m_distance_km = Some 0 \<rparr>,
      \<lparr> m_project = project_named_A 1 None, m_score = 30, m_distance_km = None \<rparr>]
   \<and> matched_projects lower_ascii
        ((client_at [] 39 116) \<lparr> li_city := PStr [97, 98], li_region := PStr [99, 100] \<rparr>)
        venues_of_three
        [project_named_A 1 None, project_named_A 2 None, project_named_A 3 None]
      = Inr [\<lparr> m_project = project_named_A 3 None, m_score = 50, m_distance_km = None \<rparr>,
             \<lparr> m_project = project_named_A 2 None, m_score = 30, m_distance_km = Some 0 \<rparr>,
             \<lparr> m_project = project_named_A 1 None, m_score = 30, m_distance_km = None \<rparr>]
   \<and> match_projects_by_location lower_ascii
        ((client_at [] 39 116) \<lparr> li_city := PStr [97, 98], li_region := PStr [99, 100] \<rparr>)
        venues_of_three
        [project_named_A 1 None, project_named_A 2 None, project_named_A 3 None]
      = Inr [project_named_A 3 None, project_named_A 2 None, project_named_A 1 None]"
proof -
  let ?li = "(client_at [] 39 116) \<lparr> li_city := PStr [97, 98], li_region := PStr [99, 100] \<rparr>"
  let ?ps = "[project_named_A 1 None, project_named_A 2 None, project_named_A 3 None]"
  let ?ms = "[\<lparr> m_project = project_named_A 3 None, m_score = 50, m_distance_km = None \<rparr>,
      \<lparr> m_project = project_named_A 2 None, m_score = 30, m_distance_km = Some 0 \<rparr>,
      \<lparr> m_project = project_named_A 1 None, m_score = 30, m_distance_km = None \<rparr>]"
  have m1: "match_candidate lower_ascii (prepare_client lower_ascii ?li) (venues_of_three 1)
              (project_named_A 1 None)
              = Inr (Some \<lparr> m_project = project_named_A 1 None, m_score = 30, m_distance_km = None \<rparr>)"
    by (simp add: match_candidate_def vpn_adjust_def scoring_eval string_eval example_defs
        venues_of_three_def Let_def)
  have m2: "match_candidate lower_ascii (prepare_client lower_ascii ?li) (venues_of_three 2)
              (project_named_A 2 None)
              = Inr (Some \<lparr> m_project = project_named_A 2 None, m_score = 30, m_distance_km = Some 0 \<rparr>)"
    by (simp add: match_candidate_def vpn_adjust_def scoring_eval string_eval example_defs
        venues_of_three_def Let_def calculate_distance_def haversine_km_same)
  have m3: "match_candidate lower_ascii (prepare_client lower_ascii ?li) (venues_of_three 3)
              (project_named_A 3 None)
              = Inr (Some \<lparr> m_project = project_named_A 3 None, m_score = 50, m_distance_km = None \<rparr>)"
    by (simp add: match_candidate_def vpn_adjust_def scoring_eval string_eval example_defs
        venues_of_three_def Let_def)
  have ids: "p_id (project_named_A 1 None) = 1" "p_id (project_named_A 2 None) = 2"
    "p_id (project_named_A 3 None) = 3"
    by (simp_all add: project_named_A_def)
  have v: "is_valid_project (project_named_A i None)" for i
    by (simp add: is_valid_project_def project_named_A_def string_eval)
  have s: "li_success ?li" by (simp add: client_at_def)
  have mp: "matched_projects lower_ascii ?li venues_of_three ?ps = Inr ?ms"
    unfolding matched_projects_def Let_def
    using s v m1 m2 m3 by (simp add: ids rank_key_def)
  have str: "\<forall>p \<in> set ?ps. text_fields_are_strings (venues_of_three (p_id p))"
    by (simp add: ids venues_of_three_def text_fields_are_strings_def example_defs)
  from output_ranked_by_score_then_distance [of lower_ascii ?li venues_of_three ?ps ?ms] mp str
  show ?thesis
    by simp
qed

section \<open>The caches\<close>

lemma min_by_timestamp_in: "min_by_timestamp b xs \<in> set (b # xs)"
  by (induction xs arbitrary: b) auto

lemma min_by_timestamp_le_start: "snd (snd (min_by_timestamp b xs)) \<le> snd (snd b)"
proof (induction xs arbitrary: b)
  case Nil
  then show ?case by simp
next
  case (Cons x xs)
  show ?case
  proof (cases "snd (snd x) < snd (snd b)")
    case True
    with Cons.IH [of x] show ?thesis by simp
  next
    case False
    with Cons.IH [of b] show ?thesis by simp
  qed
qed

lemma min_by_timestamp_le_rest:
  "e \<in> set xs \<Longrightarrow> snd (snd (min_by_timestamp b xs)) \<le> snd (snd e)"
proof (induction xs arbitrary: b)
  case Nil
  then show ?case by simp
next
  case (Cons x xs)
  show ?case
  proof (cases "snd (snd x) < snd (snd b)")
    case True
    show ?thesis
    proof (cases "e = x")
      case True
      with \<open>snd (snd x) < snd (snd b)\<close> min_by_timestamp_le_start [of x xs] show ?thesis by simp
    next
      case False
      with Cons.prems have "e \<in> set xs" by simp
      from Cons.IH [OF this, of x] True show ?thesis by simp
    qed
  next
    case False
    show ?thesis
    proof (cases "e = x")
      case True
      with False min_by_timestamp_le_start [of b xs] show ?thesis by simp
    next
      case ne: False
      with Cons.prems have "e \<in> set xs" by simp
      from Cons.IH [OF this, of b] False show ?thesis by simp
    qed
  qed
qed

lemma min_by_timestamp_le:
  "e \<in> set (b # xs) \<Longrightarrow> snd (snd (min_by_timestamp b xs)) \<le> snd (snd e)"
  using min_by_timestamp_le_start [of b xs] min_by_timestamp_le_rest [of e xs b] by auto

lemma length_update_alist:
  "length (AList.update k v al) = (if k \<in> fst ` set al then length al else Suc (length al))"
  by (induction al) auto

lemma length_delete_distinct:
  "distinct (map fst al) \<Longrightarrow> e \<in> set al \<Longrightarrow> Suc (length (AList.delete (fst e) al)) = length al"
proof (induction al)
  case Nil
  then show ?case by simp
next
  case (Cons a al)
  show ?case
  proof (cases "fst a = fst e")
    case True
    with Cons.prems have "fst e \<notin> fst ` set al" by auto
    then have "AList.delete (fst e) al = al" by (rule delete_id)
    with True show ?thesis by simp
  next
    case False
    with Cons.prems have "e \<in> set al" by auto
    with Cons.IH Cons.prems(1) False show ?thesis by simp
  qed
qed

lemma same_key_same_entry:
  assumes "distinct (map fst al)" and "e \<in> set al" and "x \<in> set al" and "fst x = fst e"
  shows "x = e"
proof -
  from assms(1) have "inj_on fst (set al)" by (simp add: distinct_map)
  from inj_onD [OF this assms(4,3,2)] show ?thesis .
qed

lemma set_delete_distinct:
  assumes "distinct (map fst al)" and "e \<in> set al"
  shows "set (AList.delete (fst e) al) = set al - {e}"
proof
  show "set (AList.delete (fst e) al) \<subseteq> set al - {e}"
  proof
    fix x assume "x \<in> set (AList.delete (fst e) al)"
    then have "x \<in> set al" and "fst x \<noteq> fst e"
      by (auto simp add: AList.delete_eq case_prod_beta)
    then show "x \<in> set al - {e}" by blast
  qed
next
  show "set al - {e} \<subseteq> set (AList.delete (fst e) al)"
  proof
    fix x assume x: "x \<in> set al - {e}"
    then have "fst x \<noteq> fst e"
      using same_key_same_entry [OF assms, of x] by blast
    with x show "x \<in> set (AList.delete (fst e) al)"
      by (simp add: AList.delete_eq case_prod_beta)
  qed
qed


lemma cache_put_evicts:
  assumes "distinct (map fst cache)" and "stored = AList.update k (v, now) cache"
    and "max_entries < length stored"
  shows "\<exists>e \<in> set stored. (\<forall>e' \<in> set stored. snd (snd e) \<le> snd (snd e'))
           \<and> cache_put max_entries now k v cache = AList.delete (fst e) stored
           \<and> set (cache_put max_entries now k v cache) = set stored - {e}
           \<and> Suc (length (cache_put max_entries now k v cache)) = length stored"
proof -
  have d: "distinct (map fst stored)"
    using assms(1,2) by (simp add: distinct_update)
  obtain b xs where bx: "stored = b # xs"
    using assms(3) by (cases stored) auto
  let ?e = "min_by_timestamp b xs"
  have in_set: "?e \<in> set stored"
    using min_by_timestamp_in [of b xs] bx by simp
  have least: "\<forall>e' \<in> set stored. snd (snd ?e) \<le> snd (snd e')"
    using min_by_timestamp_le [of _ b xs] bx by simp
  have "cache_put max_entries now k v cache =
          (case stored of [] \<Rightarrow> stored
           | e # es \<Rightarrow> AList.delete (fst (min_by_timestamp e es)) stored)"
    using assms(3) unfolding assms(2) by (simp add: cache_put_def Let_def)
  then have put: "cache_put max_entries now k v cache = AList.delete (fst ?e) stored"
    by (simp add: bx)
  have s: "set (cache_put max_entries now k v cache) = set stored - {?e}"
    by (simp only: put set_delete_distinct [OF d in_set])
  have l: "Suc (length (cache_put max_entries now k v cache)) = length stored"
    by (simp only: put length_delete_distinct [OF d in_set])
  show ?thesis
  proof (rule bexI [of _ ?e])
    show "(\<forall>e' \<in> set stored. snd (snd ?e) \<le> snd (snd e'))
           \<and> cache_put max_entries now k v cache = AList.delete (fst ?e) stored
           \<and> set (cache_put max_entries now k v cache) = set stored - {?e}
           \<and> Suc (length (cache_put max_entries now k v cache)) = length stored"
      using least put s l by (intro conjI)
  next
    show "?e \<in> set stored" by (rule in_set)
  qed
qed

lemma cache_put_keeps:
  assumes "\<not> max_entries < length (AList.update k (v, now) cache)"
  shows "cache_put max_entries now k v cache = AList.update k (v, now) cache"
  using assms by (simp add: cache_put_def Let_def)

lemma cache_put_ok:
  fixes cache :: "('a, 'b) cache"
  assumes "distinct (map fst cache)" and "length cache \<le> max_entries"
  shows "distinct (map fst (cache_put max_entries now k v cache))
         \<and> length (cache_put max_entries now k v cache) \<le> max_entries"
proof (cases "max_entries < length (AList.update k (v, now) cache)")
  case True
  from cache_put_evicts [OF assms(1) refl True]
  obtain e :: "'a \<times> 'b \<times> real"
    where e: "cache_put max_entries now k v cache = AList.delete (fst e) (AList.update k (v, now) cache)"
    "Suc (length (cache_put max_entries now k v cache)) = length (AList.update k (v, now) cache)"
    by blast
  have "length (AList.update k (v, now) cache) \<le> Suc max_entries"
    using assms(2) by (simp add: length_update_alist)
  with e(2) have "length (cache_put max_entries now k v cache) \<le> max_entries" by simp
  moreover have "distinct (map fst (cache_put max_entries now k v cache))"
    unfolding e(1) using assms(1) by (simp add: distinct_delete distinct_update)
  ultimately show ?thesis by simp
next
  case False
  with assms(1) show ?thesis
    by (simp add: cache_put_keeps distinct_update)
qed

lemma cache_get_ok:
  assumes "distinct (map fst cache)" and "length cache \<le> max_entries"
  shows "distinct (map fst (snd (cache_get now k cache)))
         \<and> length (snd (cache_get now k cache)) \<le> max_entries"
proof -
  have "length (AList.delete k cache) \<le> length cache"
    by (rule length_delete_le)
  moreover have "distinct (map fst (AList.delete k cache))"
    using assms(1) by (rule distinct_delete)
  ultimately show ?thesis
    using assms by (simp add: cache_get_def split: option.splits)
qed

lemma cache_step_ok:
  assumes "distinct (map fst cache) \<and> length cache \<le> max_entries"
  shows "distinct (map fst (cache_step max_entries cache op))
         \<and> length (cache_step max_entries cache op) \<le> max_entries"
proof (cases op)
  case (Get now k)
  with cache_get_ok [of cache max_entries now k] assms show ?thesis by simp
next
  case (Put now k v)
  with cache_put_ok [of cache max_entries now k v] assms show ?thesis by simp
qed

lemma cache_run_from_ok:
  assumes "distinct (map fst cache) \<and> length cache \<le> max_entries"
  shows "distinct (map fst (foldl (cache_step max_entries) cache ops))
         \<and> length (foldl (cache_step max_entries) cache ops) \<le> max_entries"
  using assms
proof (induction ops arbitrary: cache)
  case Nil
  then show ?case by simp
next
  case (Cons op ops)
  from Cons.IH [OF cache_step_ok [OF Cons.prems]] show ?case by simp
qed

lemma cache_run_ok:
  "distinct (map fst (cache_run max_entries ops)) \<and> length (cache_run max_entries ops) \<le> max_entries"
  unfolding cache_run_def by (rule cache_run_from_ok) simp

lemma get_location_by_ip_no_ip:
  assumes "or_empty (if or_empty ip = [] then public_ip env else ip) = []"
  shows "get_location_by_ip env ip cache = (get_location_fallback env None, cache)"
  using assms unfolding get_location_by_ip_def Let_def by simp

lemma get_location_by_ip_with_ip:
  assumes "key = or_empty (if or_empty ip = [] then public_ip env else ip)" and "key \<noteq> []"
    and "cache_get (t_lookup env) key cache = (r, c')"
  shows "get_location_by_ip env ip cache =
           (case r of
              Some result \<Rightarrow> (result, c')
            | None \<Rightarrow>
                (case primary_providers env key of
                   Some location_result \<Rightarrow>
                     (location_result, cache_put location_cache_max (t_store env) key location_result c')
                 | None \<Rightarrow> (get_location_fallback env (Some key), c')))"
proof -
  have "or_empty (if or_empty ip = [] then public_ip env else ip) \<noteq> []"
    using assms(1,2) by simp
  then show ?thesis
    unfolding get_location_by_ip_def Let_def assms(1) [symmetric]
    by (simp only: if_False assms(3) prod.case)
qed


lemma get_location_by_ip_cache_ok:
  assumes "distinct (map fst cache)" and "length cache \<le> location_cache_max"
  shows "distinct (map fst (snd (get_location_by_ip env ip cache)))
         \<and> length (snd (get_location_by_ip env ip cache)) \<le> location_cache_max"
proof -
  define key where "key = or_empty (if or_empty ip = [] then public_ip env else ip)"
  show ?thesis
  proof (cases "key = []")
    case True
    then show ?thesis
      using assms get_location_by_ip_no_ip [of ip env cache] by (simp add: key_def)
  next
    case False
    obtain r c' where g: "cache_get (t_lookup env) key cache = (r, c')"
      by (cases "cache_get (t_lookup env) key cache") auto
    have ok: "distinct (map fst c') \<and> length c' \<le> location_cache_max"
      using cache_get_ok [OF assms, of "t_lookup env" key] g by simp
    have ok2: "distinct (map fst (cache_put location_cache_max (t_store env) key lr c'))
              \<and> length (cache_put location_cache_max (t_store env) key lr c') \<le> location_cache_max" for lr
      using ok cache_put_ok [of c' location_cache_max "t_store env" key lr] by simp
    show ?thesis
      unfolding get_location_by_ip_with_ip [OF key_def False g]
      using ok ok2 by (simp split: option.splits)
  qed
qed

lemma get_hospital_location_no_key:
  assumes "geo_api_key env = []"
  shows "get_hospital_location env hn pn city cache = (None, cache, 0)"
  using assms by (simp add: get_hospital_location_def)

lemma get_hospital_location_no_keyword:
  assumes "or_empty (if or_empty hn \<noteq> [] then hn else pn) = []"
  shows "get_hospital_location env hn pn city cache = (None, cache, 0)"
  using assms unfolding get_hospital_location_def Let_def by simp

lemma get_hospital_location_query:
  assumes "geo_api_key env \<noteq> []"
    and "kw = or_empty (if or_empty hn \<noteq> [] then hn else pn)" and "kw \<noteq> []"
    and "cache_get (geo_t_lookup env) (kw @ [95] @ or_empty city) cache = (r, c')"
  shows "get_hospital_location env hn pn city cache =
           (case r of
              Some result \<Rightarrow> (Some result, c', 0)
            | None \<Rightarrow>
                (case geocode_result env of
                   Some location_result \<Rightarrow>
                     (Some location_result,
                      cache_put hospital_cache_max (geo_t_store env)
                        (kw @ [95] @ or_empty city) location_result c', 1)
                 | None \<Rightarrow> (None, c', 1)))"
proof -
  have "or_empty (if or_empty hn \<noteq> [] then hn else pn) \<noteq> []"
    using assms(2,3) by simp
  then show ?thesis
    unfolding get_hospital_location_def Let_def assms(2) [symmetric]
    by (simp only: if_False assms(1,4) prod.case)
qed

lemma get_hospital_location_cache_ok:
  assumes "distinct (map fst cache)" and "length cache \<le> hospital_cache_max"
  shows "distinct (map fst (fst (snd (get_hospital_location env hn pn city cache))))
         \<and> length (fst (snd (get_hospital_location env hn pn city cache))) \<le> hospital_cache_max"
proof -
  define kw where "kw = or_empty (if or_empty hn \<noteq> [] then hn else pn)"
  show ?thesis
  proof (cases "geo_api_key env = [] \<or> kw = []")
    case True
    then show ?thesis
      using assms get_hospital_location_no_key [of env hn pn city cache]
        get_hospital_location_no_keyword [of hn pn env city cache]
      by (auto simp add: kw_def)
  next
    case False
    then have k: "geo_api_key env \<noteq> []" and nk: "kw \<noteq> []" by simp_all
    obtain r c' where g: "cache_get (geo_t_lookup env) (kw @ [95] @ or_empty city) cache = (r, c')"
      by (cases "cache_get (geo_t_lookup env) (kw @ [95] @ or_empty city) cache") auto
    have ok: "distinct (map fst c') \<and> length c' \<le> hospital_cache_max"
      using cache_get_ok [OF assms, of "geo_t_lookup env" "kw @ [95] @ or_empty city"] g by simp
    have ok2: "distinct (map fst (cache_put hospital_cache_max (geo_t_store env) (kw @ [95] @ or_empty city) lr c'))
              \<and> length (cache_put hospital_cache_max (geo_t_store env) (kw @ [95] @ or_empty city) lr c') \<le> hospital_cache_max" for lr
      using ok cache_put_ok [of c' hospital_cache_max "geo_t_store env" "kw @ [95] @ or_empty city" lr] by simp
    show ?thesis
      unfolding get_hospital_location_query [OF k kw_def nk g]
      using ok ok2 by (simp split: option.splits)
  qed
qed
lemma min_by_timestamp_snoc:
  "min_by_timestamp b (xs @ [x]) =
     (if snd (snd x) < snd (snd (min_by_timestamp b xs)) then x else min_by_timestamp b xs)"
  by (induction xs arbitrary: b) simp_all

lemma update_absent_appends:
  "k \<notin> fst ` set al \<Longrightarrow> AList.update k v al = al @ [(k, v)]"
  by (induction al) auto
lemma cache_get_distinct:
  assumes "distinct (map fst cache)"
  shows "distinct (map fst (snd (cache_get now k cache)))"
  using assms distinct_delete [of cache k]
  by (simp add: cache_get_def split: option.splits)

lemma cache_put_spec:
  assumes "distinct (map fst cache)"
  shows "spec_put_result max_entries (AList.update k (v, now) cache)
           (cache_put max_entries now k v cache)"
proof (cases "max_entries < length (AList.update k (v, now) cache)")
  case True
  from cache_put_evicts [OF assms refl True] True show ?thesis
    unfolding spec_put_result_def by (simp only: if_True)
next
  case False
  then show ?thesis
    by (simp add: spec_put_result_def cache_put_keeps)
qed

text \<open>
  The three steps of a store, with no step of another worker in between, are \<open>cache_put\<close>.
\<close>

lemma put_steps_uninterrupted:
  "pool_run max_entries (k, v, now) job2 cache [First, First, First]
     = (Finished, AtStore, cache_put max_entries now k v cache)"
proof (cases "max_entries < length (AList.update k (v, now) cache)")
  case False
  then show ?thesis
    by (simp add: pool_run_def cache_put_def Let_def)
next
  case True
  then obtain b xs where bx: "AList.update k (v, now) cache = b # xs"
    by (cases "AList.update k (v, now) cache") auto
  have "fst (min_by_timestamp b xs) \<in> fst ` set (b # xs)"
    using min_by_timestamp_in [of b xs] by (rule imageI)
  with True bx show ?thesis
    by (simp add: pool_run_def cache_put_def Let_def)
qed

text \<open>
  Two workers store new keys into a dictionary of \<open>max_entries\<close> entries, and each takes
  its next step in turn: both choose the same oldest key, the first deletes it, the second
  raises, and the dictionary is left with one entry too many.
\<close>

lemma pool_race:
  fixes cache :: "('k, 'v) cache"
  assumes "distinct (map fst cache)" and "length cache = max_entries"
    and "k1 \<notin> fst ` set cache" and "k2 \<notin> fst ` set cache" and "k1 \<noteq> k2"
  shows "\<exists>c'. pool_run max_entries (k1, v1, t1) (k2, v2, t2) cache
                 [First, Second, First, Second, First, Second] = (Finished, Raised, c')
              \<and> length c' = Suc max_entries"
proof -
  let ?s1 = "AList.update k1 (v1, t1) cache"
  let ?s2 = "AList.update k2 (v2, t2) ?s1"
  have s1: "?s1 = cache @ [(k1, v1, t1)]"
    using assms(3) by (rule update_absent_appends)
  have "k2 \<notin> fst ` set ?s1"
    using assms(4,5) by (simp add: s1)
  then have s2: "?s2 = ?s1 @ [(k2, v2, t2)]"
    by (rule update_absent_appends)
  have d: "distinct (map fst ?s2)"
    using assms(1) by (simp add: distinct_update)
  have len: "length ?s2 = Suc (Suc max_entries)"
    using assms(2) by (simp only: s2) (simp add: s1)
  then obtain b xs where bx: "?s2 = b # xs"
    by (cases ?s2) auto
  let ?e = "min_by_timestamp b xs"
  have in_set: "?e \<in> set ?s2"
    using min_by_timestamp_in [of b xs] bx by simp
  then have key_in: "fst ?e \<in> fst ` set ?s2" by (rule imageI)
  have gone: "fst ?e \<notin> fst ` set (AList.delete (fst ?e) ?s2)"
    using delete_notin_dom [of "fst ?e" ?s2] by simp
  have l: "Suc (length (AList.delete (fst ?e) ?s2)) = length ?s2"
    by (rule length_delete_distinct [OF d in_set])
  have over: "max_entries < length ?s2" using len by simp
  have "pool_run max_entries (k1, v1, t1) (k2, v2, t2) cache
          [First, Second, First, Second, First, Second]
        = (Finished, Raised, AList.delete (fst ?e) ?s2)"
    using over key_in gone unfolding pool_run_def
    by (simp add: bx)
  moreover have "length (AList.delete (fst ?e) ?s2) = Suc max_entries"
    using l len by simp
  ultimately show ?thesis by blast
qed

lemma full_venue_cache_length: "length full_venue_cache = 200"
  by (simp add: full_venue_cache_def)

lemma full_venue_cache_distinct: "distinct (map fst full_venue_cache)"
  by (simp add: full_venue_cache_def distinct_map comp_def inj_on_def)

lemma full_venue_cache_entry:
  "e \<in> set full_venue_cache \<longleftrightarrow> (\<exists>i < 200. e = ([19968 + i, 95], venue_at 39 116, real i))"
  by (auto simp add: full_venue_cache_def)

lemma full_venue_cache_keys:
  "k \<in> fst ` set full_venue_cache \<longleftrightarrow> (\<exists>i < 200. k = [19968 + i, 95])"
  by (force simp add: full_venue_cache_def)

text \<open>
  Claim C6, for stores that no other thread interrupts. The capacities are 100 and
  200. Whatever lookups and stores have been run one after another on a cache since it was
  empty, it holds at most \<open>max_entries\<close> entries. A store into a dictionary with more than
  \<open>max_entries\<close> entries after the assignment removes exactly one entry, one whose
  timestamp is the smallest of all, and any other store removes nothing; the three steps of
  a worker's store, taken without a step of another worker in between, are this store. A
  call of either resolver keeps a cache within its capacity, and a call that misses the
  cache and gets a record from a provider stores it in this way.
\<close>

theorem cache_bounded_oldest_evicted:
  "location_cache_max = 100 \<and> hospital_cache_max = 200
   \<and> length (cache_run max_entries ops) \<le> max_entries
   \<and> (distinct (map fst cache) \<longrightarrow>
        spec_put_result max_entries (AList.update k (v, now) cache)
          (cache_put max_entries now k v cache))
   \<and> pool_run max_entries (k, v, now) job2 cache [First, First, First]
       = (Finished, AtStore, cache_put max_entries now k v cache)
   \<and> (distinct (map fst lcache) \<and> length lcache \<le> location_cache_max \<longrightarrow>
        distinct (map fst (snd (get_location_by_ip env ip lcache)))
        \<and> length (snd (get_location_by_ip env ip lcache)) \<le> location_cache_max)
   \<and> (distinct (map fst hcache) \<and> length hcache \<le> hospital_cache_max \<longrightarrow>
        distinct (map fst (fst (snd (get_hospital_location genv hn pn city hcache))))
        \<and> length (fst (snd (get_hospital_location genv hn pn city hcache))) \<le> hospital_cache_max)
   \<and> (distinct (map fst lcache)
        \<and> key = or_empty (if or_empty ip = [] then public_ip env else ip) \<and> key \<noteq> []
        \<and> cache_get (t_lookup env) key lcache = (None, lc')
        \<and> primary_providers env key = Some lr \<longrightarrow>
        spec_put_result location_cache_max (AList.update key (lr, t_store env) lc')
          (snd (get_location_by_ip env ip lcache)))
   \<and> (distinct (map fst hcache) \<and> geo_api_key genv \<noteq> []
        \<and> kw = or_empty (if or_empty hn \<noteq> [] then hn else pn) \<and> kw \<noteq> []
        \<and> cache_get (geo_t_lookup genv) (kw @ [95] @ or_empty city) hcache = (None, hc')
        \<and> geocode_result genv = Some hr \<longrightarrow>
        spec_put_result hospital_cache_max
          (AList.update (kw @ [95] @ or_empty city) (hr, geo_t_store genv) hc')
          (fst (snd (get_hospital_location genv hn pn city hcache))))"
proof (intro conjI)
  show "location_cache_max = 100" by (simp add: location_cache_max_def)
  show "hospital_cache_max = 200" by (simp add: hospital_cache_max_def)
  show "length (cache_run max_entries ops) \<le> max_entries"
    using cache_run_ok [of max_entries ops] by simp
  show "distinct (map fst cache) \<longrightarrow>
        spec_put_result max_entries (AList.update k (v, now) cache)
          (cache_put max_entries now k v cache)"
    using cache_put_spec [of cache max_entries k v now] by blast
  show "pool_run max_entries (k, v, now) job2 cache [First, First, First]
       = (Finished, AtStore, cache_put max_entries now k v cache)"
    by (rule put_steps_uninterrupted)
  show "distinct (map fst lcache) \<and> length lcache \<le> location_cache_max \<longrightarrow>
        distinct (map fst (snd (get_location_by_ip env ip lcache)))
        \<and> length (snd (get_location_by_ip env ip lcache)) \<le> location_cache_max"
    using get_location_by_ip_cache_ok [of lcache env ip] by blast
  show "distinct (map fst hcache) \<and> length hcache \<le> hospital_cache_max \<longrightarrow>
        distinct (map fst (fst (snd (get_hospital_location genv hn pn city hcache))))
        \<and> length (fst (snd (get_hospital_location genv hn pn city hcache))) \<le> hospital_cache_max"
    using get_hospital_location_cache_ok [of hcache genv hn pn city] by blast
  show "distinct (map fst lcache)
        \<and> key = or_empty (if or_empty ip = [] then public_ip env else ip) \<and> key \<noteq> []
        \<and> cache_get (t_lookup env) key lcache = (None, lc')
        \<and> primary_providers env key = Some lr \<longrightarrow>
        spec_put_result location_cache_max (AList.update key (lr, t_store env) lc')
          (snd (get_location_by_ip env ip lcache))"
  proof
    assume a: "distinct (map fst lcache)
        \<and> key = or_empty (if or_empty ip = [] then public_ip env else ip) \<and> key \<noteq> []
        \<and> cache_get (t_lookup env) key lcache = (None, lc')
        \<and> primary_providers env key = Some lr"
    then have k: "key = or_empty (if or_empty ip = [] then public_ip env else ip)"
      and nk: "key \<noteq> []" and g: "cache_get (t_lookup env) key lcache = (None, lc')"
      and p: "primary_providers env key = Some lr"
      by fast+
    from a have "distinct (map fst lcache)" by fast
    then have "distinct (map fst (snd (cache_get (t_lookup env) key lcache)))"
      by (rule cache_get_distinct)
    then have d: "distinct (map fst lc')"
      unfolding g by simp
    have "snd (get_location_by_ip env ip lcache)
            = cache_put location_cache_max (t_store env) key lr lc'"
      unfolding get_location_by_ip_with_ip [OF k nk g] by (simp add: p)
    with cache_put_spec [OF d, of location_cache_max key lr "t_store env"]
    show "spec_put_result location_cache_max (AList.update key (lr, t_store env) lc')
          (snd (get_location_by_ip env ip lcache))"
      by simp
  qed
  show "distinct (map fst hcache) \<and> geo_api_key genv \<noteq> []
        \<and> kw = or_empty (if or_empty hn \<noteq> [] then hn else pn) \<and> kw \<noteq> []
        \<and> cache_get (geo_t_lookup genv) (kw @ [95] @ or_empty city) hcache = (None, hc')
        \<and> geocode_result genv = Some hr \<longrightarrow>
        spec_put_result hospital_cache_max
          (AList.update (kw @ [95] @ or_empty city) (hr, geo_t_store genv) hc')
          (fst (snd (get_hospital_location genv hn pn city hcache)))"
  proof
    assume a: "distinct (map fst hcache) \<and> geo_api_key genv \<noteq> []
        \<and> kw = or_empty (if or_empty hn \<noteq> [] then hn else pn) \<and> kw \<noteq> []
        \<and> cache_get (geo_t_lookup genv) (kw @ [95] @ or_empty city) hcache = (None, hc')
        \<and> geocode_result genv = Some hr"
    then have ak: "geo_api_key genv \<noteq> []"
      and k: "kw = or_empty (if or_empty hn \<noteq> [] then hn else pn)"
      and nk: "kw \<noteq> []"
      and g: "cache_get (geo_t_lookup genv) (kw @ [95] @ or_empty city) hcache = (None, hc')"
      and p: "geocode_result genv = Some hr"
      by fast+
    from a have "distinct (map fst hcache)" by fast
    then have "distinct (map fst (snd (cache_get (geo_t_lookup genv)
                                         (kw @ [95] @ or_empty city) hcache)))"
      by (rule cache_get_distinct)
    then have d: "distinct (map fst hc')"
      unfolding g by simp
    have "fst (snd (get_hospital_location genv hn pn city hcache))
            = cache_put hospital_cache_max (geo_t_store genv) (kw @ [95] @ or_empty city) hr hc'"
      unfolding get_hospital_location_query [OF ak k nk g] by (simp add: p)
    with cache_put_spec [OF d, of hospital_cache_max "kw @ [95] @ or_empty city" hr "geo_t_store genv"]
    show "spec_put_result hospital_cache_max
          (AList.update (kw @ [95] @ or_empty city) (hr, geo_t_store genv) hc')
          (fst (snd (get_hospital_location genv hn pn city hcache)))"
      by simp
  qed
qed

text \<open>
  Two workers store the new keys "a_" and "b_" into the full venue cache and take their steps
  in turn. The first worker's store is completed, the second worker's store raises, and the
  cache is left with 201 entries.
\<close>

theorem venue_cache_race_counterexample:
  "length full_venue_cache = hospital_cache_max
   \<and> fst (pool_run hospital_cache_max store_of_a store_of_b full_venue_cache
            [First, Second, First, Second, First, Second]) = Finished
   \<and> fst (snd (pool_run hospital_cache_max store_of_a store_of_b full_venue_cache
                 [First, Second, First, Second, First, Second])) = Raised
   \<and> length (snd (snd (pool_run hospital_cache_max store_of_a store_of_b full_venue_cache
                         [First, Second, First, Second, First, Second]))) = 201
   \<and> \<not> length (snd (snd (pool_run hospital_cache_max store_of_a store_of_b full_venue_cache
                         [First, Second, First, Second, First, Second]))) \<le> hospital_cache_max"
proof -
  have l: "length full_venue_cache = hospital_cache_max"
    by (simp add: full_venue_cache_length hospital_cache_max_def)
  have a: "[97, 95] \<notin> fst ` set full_venue_cache"
    and b: "[98, 95] \<notin> fst ` set full_venue_cache"
    by (simp_all add: full_venue_cache_keys)
  have ne: "[97, 95] \<noteq> ([98, 95] :: nat list)" by simp
  from pool_race [OF full_venue_cache_distinct l a b ne,
      of "venue_at 39 116" 1000 "venue_at 31 121" 1000]
  obtain c' where "pool_run hospital_cache_max store_of_a store_of_b full_venue_cache
                 [First, Second, First, Second, First, Second] = (Finished, Raised, c')"
    and "length c' = Suc hospital_cache_max"
    unfolding store_of_a_def store_of_b_def by blast
  with l show ?thesis by (simp add: hospital_cache_max_def)
qed

text \<open>
  The theorem for a cache of capacity 2, where the third store removes the entry stored at
  time 4; for a first lookup of an address, which is stored in the empty cache; and for a
  venue query on the full venue cache, whose store removes the entry stored at time 0.
\<close>

theorem cache_bounded_oldest_evicted_witness:
  "length (cache_run 2 [Put 5 (1::nat) (10::nat), Put 4 2 20, Put 6 3 30, Get 4000 1]) \<le> 2
   \<and> cache_put 2 6 (3::nat) (30::nat) [(1, 10, 5), (2, 20, 4)] = [(1, 10, 5), (3, 30, 6)]
   \<and> map fst (snd (get_location_by_ip (silent_ip_env \<lparr> ipinfo_response := Some ipinfo_city_x \<rparr>)
                      (Some [49]) [])) = [[49]]
   \<and> length (fst (snd (get_hospital_location geo_env_answering (Some [66]) None None
                         full_venue_cache))) = 200
   \<and> [19968, 95] \<notin> fst ` set (fst (snd (get_hospital_location geo_env_answering (Some [66])
                                             None None full_venue_cache)))
   \<and> [66, 95] \<in> fst ` set (fst (snd (get_hospital_location geo_env_answering (Some [66])
                                          None None full_venue_cache)))"
proof -
  let ?env = "silent_ip_env \<lparr> ipinfo_response := Some ipinfo_city_x \<rparr>"
  let ?lr = "\<lparr> li_city = PStr [120], li_region = PStr [], li_country = PStr [],
          li_country_code = PStr [], li_ip = PStr [49], li_latitude = None,
          li_longitude = None, li_success = True \<rparr>"
  let ?hr = "\<lparr> hl_city = PStr [21271, 20140], hl_region = PStr [], hl_district = PStr [],
          hl_formatted_address = PStr [], hl_latitude = Some 39, hl_longitude = Some 116,
          hl_success = True \<rparr>"
  let ?new = "([66, 95], ?hr, 1000 :: real)"
  let ?stored = "full_venue_cache @ [?new]"
  let ?result = "fst (snd (get_hospital_location geo_env_answering (Some [66]) None None
                         full_venue_cache))"
  have absent: "[66, 95] \<notin> fst ` set full_venue_cache"
    by (simp add: full_venue_cache_keys)
  have l1: "[49] = or_empty (if or_empty (Some [49]) = [] then public_ip ?env else Some [49])"
    by (simp add: or_empty_def)
  have l2: "cache_get (t_lookup ?env) [49] ([] :: (ustring, location_info) cache) = (None, [])"
    by (simp add: cache_get_def)
  have l3: "primary_providers ?env [49] = Some ?lr"
    by (simp add: primary_providers_def amap_provider_def ipinfo_provider_def
        silent_ip_env_def ipinfo_city_x_def jget_def jget_default_def)
  have g1: "geo_api_key geo_env_answering \<noteq> []"
    by (simp add: geo_env_answering_def)
  have g2: "[66] = or_empty (if or_empty (Some [66]) \<noteq> [] then Some [66] else None)"
    by (simp add: or_empty_def)
  have g3: "cache_get (geo_t_lookup geo_env_answering) ([66] @ [95] @ or_empty None)
              full_venue_cache = (None, full_venue_cache)"
    using absent by (simp add: cache_get_def or_empty_def map_of_eq_None_iff [THEN iffD2])
  have g4: "geocode_result geo_env_answering = Some ?hr"
    by (simp add: geocode_result_def geo_env_answering_def jget_def jget_default_def)
  have st: "AList.update ([66] @ [95] @ or_empty None) (?hr, geo_t_store geo_env_answering)
              full_venue_cache = ?stored"
    using update_absent_appends [OF absent, of "(?hr, 1000)"]
    by (simp add: or_empty_def geo_env_answering_def)
  note inst = cache_bounded_oldest_evicted
    [where max_entries = 2 and ops = "[Put 5 (1::nat) (10::nat), Put 4 2 20, Put 6 3 30, Get 4000 1]"
       and cache = "[(1::nat, 10::nat, 5), (2, 20, 4)]" and k = 3 and v = 30 and now = 6
       and ?job2.0 = "(0::nat, 0::nat, 0)"
       and lcache = "[]" and env = ?env and ip = "Some [49]" and key = "[49]" and lc' = "[]"
       and lr = ?lr
       and hcache = full_venue_cache and genv = geo_env_answering and hn = "Some [66]"
       and pn = None and city = None and kw = "[66]" and hc' = full_venue_cache and hr = ?hr]
  from inst have c1: "length (cache_run 2 [Put 5 (1::nat) (10::nat), Put 4 2 20, Put 6 3 30,
                                          Get 4000 1]) \<le> 2"
    by fast
  have c2: "cache_put 2 6 (3::nat) (30::nat) [(1, 10, 5), (2, 20, 4)] = [(1, 10, 5), (3, 30, 6)]"
    by (simp add: cache_put_def Let_def)
  from inst l1 l2 l3
  have "spec_put_result location_cache_max (AList.update [49] (?lr, t_store ?env) [])
          (snd (get_location_by_ip ?env (Some [49]) []))"
    by simp
  then have c3: "map fst (snd (get_location_by_ip ?env (Some [49]) [])) = [[49]]"
    by (simp add: spec_put_result_def location_cache_max_def)
  from inst g1 g2 g3 g4 full_venue_cache_distinct
  have "spec_put_result hospital_cache_max
          (AList.update ([66] @ [95] @ or_empty None) (?hr, geo_t_store geo_env_answering)
             full_venue_cache) ?result"
    by simp
  then have "spec_put_result 200 ?stored ?result"
    unfolding st by (simp add: hospital_cache_max_def)
  moreover have "(200 < length ?stored) = True"
    by (simp add: full_venue_cache_length)
  ultimately have "\<exists>e \<in> set ?stored.
             (\<forall>e' \<in> set ?stored. snd (snd e) \<le> snd (snd e'))
             \<and> ?result = AList.delete (fst e) ?stored
             \<and> set ?result = set ?stored - {e}
             \<and> Suc (length ?result) = length ?stored"
    unfolding spec_put_result_def by (simp only: if_True)
  then obtain e where e: "e \<in> set ?stored"
    and least: "\<forall>e' \<in> set ?stored. snd (snd e) \<le> snd (snd e')"
    and res: "?result = AList.delete (fst e) ?stored"
    and res_set: "set ?result = set ?stored - {e}"
    and len: "Suc (length ?result) = length ?stored"
    by blast
  have "([19968 + 0, 95], venue_at 39 116, real 0) \<in> set full_venue_cache"
    unfolding full_venue_cache_entry by (rule exI [of _ 0]) simp
  with least have le0: "snd (snd e) \<le> 0" by fastforce
  with e have "e \<in> set full_venue_cache" by auto
  then obtain i where i: "i < 200" "e = ([19968 + i, 95], venue_at 39 116, real i)"
    unfolding full_venue_cache_entry by blast
  with le0 have "i = 0" by simp
  with i have key: "fst e = [19968, 95]" by simp
  have c4: "length ?result = 200"
    using len by (simp add: full_venue_cache_length)
  have c5: "[19968, 95] \<notin> fst ` set ?result"
    unfolding res key using delete_notin_dom [of "[19968, 95]" ?stored] by simp
  have "?new \<in> set ?stored - {e}"
    using key by auto
  then have "?new \<in> set ?result" unfolding res_set .
  then have "fst ?new \<in> fst ` set ?result" by (rule imageI)
  then have c6: "[66, 95] \<in> fst ` set ?result" by simp
  from c1 c2 c3 c4 c5 c6 show ?thesis by (intro conjI)
qed

section \<open>Venue geocoding without a key\<close>

lemma text_city_match_add: "text_city_match c r nr s = s + text_city_match c r nr 0"
  by (simp add: text_city_match_def)

lemma text_name_match_add: "text_name_match c t s = s + text_name_match c t 0"
  by (simp add: text_name_match_def Let_def)

lemma score_text_sum:
  "score_text lower c p =
     text_city_match c (lower (str_strip (or_empty (p_region p))))
       (normalize_city (lower (str_strip (or_empty (p_region p))))) 0
     + text_name_match c
         (lower (str_strip (or_empty (p_name p)) @ [32] @ str_strip (or_empty (p_hospital_name p)))) 0"
  unfolding score_text_def Let_def
  by (subst text_name_match_add) simp

text \<open>
  Claim C8. With no key configured \<open>get_hospital_location\<close> returns \<^verbatim>\<open>None\<close>, leaves
  the cache as it is and makes no HTTP request; a candidate with this result is scored by the
  text tiers on the project's region field (30, 25, 28, 22) and the name tiers, with no
  distance; and the whole run is the run in which every geocode is \<^verbatim>\<open>None\<close>, which
  returns a list.
\<close>

theorem no_key_falls_back_to_region_hint:
  assumes "geo_api_key env = []"
    and "a = ip_city_lower c" and "na = ip_city_normalized c"
    and "r = lower (str_strip (or_empty (p_region p)))" and "nr = normalize_city r"
  shows "get_hospital_location env hn pn city cache = (None, cache, 0)
         \<and> score_candidate lower c (fst (get_hospital_location env hn pn city cache)) p
             = Inr ((if a \<noteq> [] \<and> r \<noteq> [] then
                   if a = r then 30
                   else if str_in a r \<or> str_in r a then 25
                   else if na \<noteq> [] \<and> nr \<noteq> [] then
                     if na = nr then 28
                     else if str_in na nr \<or> str_in nr na then 22
                     else 0
                   else 0
                 else 0)
                + text_name_match c
                    (lower (str_strip (or_empty (p_name p)) @ [32]
                                @ str_strip (or_empty (p_hospital_name p)))) 0,
                None)
         \<and> match_projects_by_location lower li
              (\<lambda>i. fst (get_hospital_location env (hns i) (pns i) (cities i) (caches i))) ps
             = match_projects_by_location lower li (\<lambda>i. None) ps
         \<and> (\<exists>out. match_projects_by_location lower li (\<lambda>i. None) ps = Inr out)"
proof (intro conjI)
  show g: "get_hospital_location env hn pn city cache = (None, cache, 0)"
    using assms(1) by (rule get_hospital_location_no_key)
  have "text_city_match c r nr 0 =
          (if a \<noteq> [] \<and> r \<noteq> [] then
                   if a = r then 30
                   else if str_in a r \<or> str_in r a then 25
                   else if na \<noteq> [] \<and> nr \<noteq> [] then
                     if na = nr then 28
                     else if str_in na nr \<or> str_in nr na then 22
                     else 0
                   else 0
                 else 0)"
    unfolding text_city_match_def assms(2,3) by simp
  then show "score_candidate lower c (fst (get_hospital_location env hn pn city cache)) p
             = Inr ((if a \<noteq> [] \<and> r \<noteq> [] then
                   if a = r then 30
                   else if str_in a r \<or> str_in r a then 25
                   else if na \<noteq> [] \<and> nr \<noteq> [] then
                     if na = nr then 28
                     else if str_in na nr \<or> str_in nr na then 22
                     else 0
                   else 0
                 else 0)
                + text_name_match c
                    (lower (str_strip (or_empty (p_name p)) @ [32]
                                @ str_strip (or_empty (p_hospital_name p)))) 0,
                None)"
    unfolding g using assms(4,5) by (simp add: score_candidate_def score_text_sum)
  have "(\<lambda>i. fst (get_hospital_location env (hns i) (pns i) (cities i) (caches i)))
          = (\<lambda>i. None)"
    using get_hospital_location_no_key [OF assms(1)] by simp
  then show "match_projects_by_location lower li
              (\<lambda>i. fst (get_hospital_location env (hns i) (pns i) (cities i) (caches i))) ps
             = match_projects_by_location lower li (\<lambda>i. None) ps"
    by simp
  have "\<forall>p \<in> set ps. text_fields_are_strings ((\<lambda>i. None) (p_id p))"
    by (simp add: text_fields_are_strings_def)
  from matched_projects_returns [OF this, of lower li]
  show "\<exists>out. match_projects_by_location lower li (\<lambda>i. None) ps = Inr out"
    by (auto simp add: match_projects_by_location_def)
qed

text \<open>
  The theorem for the client city U+5317 U+4EAC U+5E02 and a project whose region field is
  U+5317 U+4EAC: the region field is inside the client's city, 25 points.
\<close>

theorem no_key_falls_back_to_region_hint_witness:
  "get_hospital_location silent_geo_env (Some [65]) None (Some [21271, 20140]) []
     = (None, [], 0)
   \<and> score_candidate lower_ascii (prepare_client lower_ascii (client_in_city [21271, 20140, 24066]))
        (fst (get_hospital_location silent_geo_env (Some [65]) None (Some [21271, 20140]) []))
        (project_named_A 1 (Some [21271, 20140])) = Inr (25, None)
   \<and> match_projects_by_location lower_ascii (client_in_city [21271, 20140, 24066])
        (\<lambda>i. fst (get_hospital_location silent_geo_env (Some [65]) None (Some [21271, 20140]) []))
        [project_named_A 1 (Some [21271, 20140])]
      = Inr [project_named_A 1 (Some [21271, 20140])]"
proof -
  let ?li = "client_in_city [21271, 20140, 24066]"
  let ?c = "prepare_client lower_ascii ?li"
  let ?p = "project_named_A 1 (Some [21271, 20140])"
  have h1: "geo_api_key silent_geo_env = []" by (simp add: silent_geo_env_def)
  have h2: "[21271, 20140, 24066] = ip_city_lower ?c"
    and h3: "[21271, 20140] = ip_city_normalized ?c"
    by (simp_all add: prepare_client_def client_in_city_def string_eval Let_def)
  have h4: "[21271, 20140] = lower_ascii (str_strip (or_empty (p_region ?p)))"
    by (simp add: project_named_A_def string_eval)
  have h5: "[21271, 20140] = normalize_city [21271, 20140]"
    by (simp add: normalize_city_def)
  have v: "is_valid_project ?p"
    by (simp add: is_valid_project_def project_named_A_def string_eval)
  have m: "match_candidate lower_ascii ?c None ?p
             = Inr (Some \<lparr> m_project = ?p, m_score = 25, m_distance_km = None \<rparr>)"
    by (simp add: match_candidate_def vpn_adjust_def scoring_eval example_defs string_eval Let_def)
  have run: "match_projects_by_location lower_ascii ?li (\<lambda>i. None) [?p] = Inr [?p]"
    unfolding match_projects_by_location_def matched_projects_def Let_def
    using v m by (simp add: client_in_city_def)
  from no_key_falls_back_to_region_hint
      [where hn = "Some [65]" and pn = None and city = "Some [21271, 20140]" and cache = "[]"
         and li = ?li and hns = "\<lambda>i. Some [65]"
         and pns = "\<lambda>i. None" and cities = "\<lambda>i. Some [21271, 20140]" and caches = "\<lambda>i. []"
         and ps = "[?p]" and lower = lower_ascii,
       OF h1 h2 h3 h4 h5]
  show ?thesis
    using run
    by (simp add: get_hospital_location_def silent_geo_env_def scoring_eval example_defs
        string_eval Let_def)
qed

section \<open>The chain of IP providers\<close>

lemma cache_get_miss:
  assumes "cache_get now k cache = (None, c')"
  shows "k \<notin> fst ` set c' \<and> set c' \<subseteq> set cache"
proof (cases "map_of cache k")
  case None
  with assms have "c' = cache" by (simp add: cache_get_def)
  with None show ?thesis by (simp add: map_of_eq_None_iff)
next
  case (Some a)
  with assms have "c' = AList.delete k cache"
    by (cases a) (simp add: cache_get_def split: if_splits)
  then show ?thesis
    using delete_notin_dom [of k cache] by (auto simp add: AList.delete_eq)
qed

lemma cache_get_hit:
  assumes "cache_get now k cache = (Some r, c')"
  shows "c' = cache \<and> (\<exists>ts. map_of cache k = Some (r, ts))"
  using assms by (auto simp add: cache_get_def split: option.splits if_splits)

lemma cache_put_present:
  fixes c' :: "('a, 'b) cache"
  assumes "distinct (map fst c')" and "k \<notin> fst ` set c'"
    and "\<forall>e \<in> set c'. snd (snd e) \<le> now" and "0 < n"
  shows "map_of (cache_put n now k v c') k = Some (v, now)"
proof -
  let ?stored = "AList.update k (v, now) c'"
  have m: "map_of ?stored k = Some (v, now)"
    by (simp add: update_conv')
  show ?thesis
  proof (cases "n < length ?stored")
    case False
    then show ?thesis using m by (simp add: cache_put_keeps)
  next
    case True
    have app: "?stored = c' @ [(k, v, now)]"
      using assms(2) by (rule update_absent_appends)
    with True assms(4) obtain b xs where c': "c' = b # xs"
      by (cases c') auto
    have st: "?stored = b # (xs @ [(k, v, now)])"
      using app c' by simp
    let ?e = "min_by_timestamp b xs"
    have "snd (snd ?e) \<le> snd (snd b)" by (rule min_by_timestamp_le_start)
    also have "snd (snd b) \<le> now" using assms(3) c' by simp
    finally have le: "snd (snd ?e) \<le> now" .
    have e: "min_by_timestamp b (xs @ [(k, v, now)]) = ?e"
      using le by (simp add: min_by_timestamp_snoc)
    have "?e \<in> set c'"
      using min_by_timestamp_in [of b xs] c' by simp
    with assms(2) have ne: "k \<noteq> fst ?e" by force
    have "cache_put n now k v c' =
            (case ?stored of [] \<Rightarrow> ?stored
             | e # es \<Rightarrow> AList.delete (fst (min_by_timestamp e es)) ?stored)"
      using True by (simp add: cache_put_def Let_def)
    also have "\<dots> = AList.delete (fst ?e) ?stored"
      by (simp only: st list.case e)
    finally have "cache_put n now k v c' = AList.delete (fst ?e) ?stored" .
    then show ?thesis
      using m ne by (simp add: delete_conv')
  qed
qed

lemma amap_provider_accepts:
  assumes "amap_provider env key = Some r"
  shows "li_success r \<and> (truthy (li_city r) \<or> truthy (li_region r))"
  using assms
  by (auto simp add: amap_provider_def Let_def split: if_splits option.splits)

lemma ipinfo_provider_accepts:
  assumes "ipinfo_provider env key = Some r"
  shows "li_success r \<and> (truthy (li_city r) \<or> truthy (li_region r))"
  using assms
  by (auto simp add: ipinfo_provider_def jget_def jget_default_def
      split: if_splits option.splits loc_parse.splits)

lemma ipapi_provider_accepts:
  assumes "ipapi_provider env key = Some r"
  shows "li_success r"
  using assms
  by (auto simp add: ipapi_provider_def split: if_splits option.splits)

lemma fallback_accepts:
  assumes "li_success (get_location_fallback env x)"
  shows "truthy (li_city (get_location_fallback env x))
         \<or> truthy (li_region (get_location_fallback env x))"
  using assms
  by (auto simp add: get_location_fallback_def failed_location_def jget_def jget_default_def
      split: if_splits option.splits)

lemma primary_providers_accepts:
  assumes "primary_providers env key = Some r"
  shows "li_success r"
  using assms amap_provider_accepts ipinfo_provider_accepts ipapi_provider_accepts
  by (auto simp add: primary_providers_def split: option.splits)

text \<open>
  Claim C7, as the code has it. With an address at hand and no fresh cache entry, the record
  returned is that of the first provider that accepts, in the order keyed provider, first
  free provider, second free provider, last resort. A record accepted from one of the first
  three is stored in the cache before it is returned, and is found there afterwards when no
  stored timestamp lies after the time of the store; the record of the last resort is
  returned without being stored. The keyed provider, the first free provider and the last
  resort accept only a record with a non-empty city or region. A fresh cache entry is
  returned as it is and stays in the cache.
\<close>

theorem ip_chain_first_accepted_is_stored:
  assumes "key = or_empty (if or_empty ip = [] then public_ip env else ip)"
    and "cache_get (t_lookup env) key cache = (hit, c')"
    and "distinct (map fst cache)" and "\<forall>e \<in> set cache. snd (snd e) \<le> t_store env"
  shows "(key = [] \<longrightarrow> get_location_by_ip env ip cache = (get_location_fallback env None, cache))
    \<and> (key \<noteq> [] \<longrightarrow>
         (\<forall>res. hit = Some res \<longrightarrow>
            get_location_by_ip env ip cache = (res, cache)
            \<and> (\<exists>ts. map_of cache key = Some (res, ts)))
         \<and> (hit = None \<longrightarrow>
              fst (get_location_by_ip env ip cache) =
                (case amap_provider env key of
                   Some r \<Rightarrow> r
                 | None \<Rightarrow>
                     (case ipinfo_provider env key of
                        Some r \<Rightarrow> r
                      | None \<Rightarrow>
                          (case ipapi_provider env key of
                             Some r \<Rightarrow> r
                           | None \<Rightarrow> get_location_fallback env (Some key))))
              \<and> (\<forall>r. primary_providers env key = Some r \<longrightarrow>
                     li_success r
                     \<and> snd (get_location_by_ip env ip cache)
                         = cache_put location_cache_max (t_store env) key r c'
                     \<and> map_of (snd (get_location_by_ip env ip cache)) key
                         = Some (r, t_store env))
              \<and> (primary_providers env key = None \<longrightarrow>
                     snd (get_location_by_ip env ip cache) = c')))
    \<and> (\<forall>r. amap_provider env key = Some r \<or> ipinfo_provider env key = Some r \<longrightarrow>
           li_success r \<and> (truthy (li_city r) \<or> truthy (li_region r)))
    \<and> (li_success (get_location_fallback env x) \<longrightarrow>
           truthy (li_city (get_location_fallback env x))
           \<or> truthy (li_region (get_location_fallback env x)))"
proof (intro conjI)
  show "key = [] \<longrightarrow> get_location_by_ip env ip cache = (get_location_fallback env None, cache)"
    using get_location_by_ip_no_ip [of ip env cache] assms(1) by simp
next
  show "key \<noteq> [] \<longrightarrow>
         (\<forall>res. hit = Some res \<longrightarrow>
            get_location_by_ip env ip cache = (res, cache)
            \<and> (\<exists>ts. map_of cache key = Some (res, ts)))
         \<and> (hit = None \<longrightarrow>
              fst (get_location_by_ip env ip cache) =
                (case amap_provider env key of
                   Some r \<Rightarrow> r
                 | None \<Rightarrow>
                     (case ipinfo_provider env key of
                        Some r \<Rightarrow> r
                      | None \<Rightarrow>
                          (case ipapi_provider env key of
                             Some r \<Rightarrow> r
                           | None \<Rightarrow> get_location_fallback env (Some key))))
              \<and> (\<forall>r. primary_providers env key = Some r \<longrightarrow>
                     li_success r
                     \<and> snd (get_location_by_ip env ip cache)
                         = cache_put location_cache_max (t_store env) key r c'
                     \<and> map_of (snd (get_location_by_ip env ip cache)) key
                         = Some (r, t_store env))
              \<and> (primary_providers env key = None \<longrightarrow>
                     snd (get_location_by_ip env ip cache) = c'))"
  proof
    assume nk: "key \<noteq> []"
    note unfold = get_location_by_ip_with_ip [OF assms(1) nk assms(2)]
    have hit: "\<forall>res. hit = Some res \<longrightarrow>
            get_location_by_ip env ip cache = (res, cache)
            \<and> (\<exists>ts. map_of cache key = Some (res, ts))"
    proof (intro allI impI)
      fix res assume h: "hit = Some res"
      from cache_get_hit [OF assms(2) [unfolded h]]
      show "get_location_by_ip env ip cache = (res, cache)
            \<and> (\<exists>ts. map_of cache key = Some (res, ts))"
        unfolding unfold h by simp
    qed
    have miss: "hit = None \<longrightarrow>
              fst (get_location_by_ip env ip cache) =
                (case amap_provider env key of
                   Some r \<Rightarrow> r
                 | None \<Rightarrow>
                     (case ipinfo_provider env key of
                        Some r \<Rightarrow> r
                      | None \<Rightarrow>
                          (case ipapi_provider env key of
                             Some r \<Rightarrow> r
                           | None \<Rightarrow> get_location_fallback env (Some key))))
              \<and> (\<forall>r. primary_providers env key = Some r \<longrightarrow>
                     li_success r
                     \<and> snd (get_location_by_ip env ip cache)
                         = cache_put location_cache_max (t_store env) key r c'
                     \<and> map_of (snd (get_location_by_ip env ip cache)) key
                         = Some (r, t_store env))
              \<and> (primary_providers env key = None \<longrightarrow>
                     snd (get_location_by_ip env ip cache) = c')"
    proof
      assume h: "hit = None"
      have m: "key \<notin> fst ` set c' \<and> set c' \<subseteq> set cache"
        using cache_get_miss [OF assms(2) [unfolded h]] .
      have d: "distinct (map fst c')"
        using cache_get_ok [OF assms(3) order_refl, of "t_lookup env" key] assms(2) by simp
      have ts: "\<forall>e \<in> set c'. snd (snd e) \<le> t_store env"
        using m assms(4) by blast
      have present: "map_of (cache_put location_cache_max (t_store env) key r c') key
                       = Some (r, t_store env)" for r
        using cache_put_present [OF d _ ts, of key location_cache_max r] m
        by (simp add: location_cache_max_def)
      have first: "fst (get_location_by_ip env ip cache) =
                (case amap_provider env key of
                   Some r \<Rightarrow> r
                 | None \<Rightarrow>
                     (case ipinfo_provider env key of
                        Some r \<Rightarrow> r
                      | None \<Rightarrow>
                          (case ipapi_provider env key of
                             Some r \<Rightarrow> r
                           | None \<Rightarrow> get_location_fallback env (Some key))))"
        unfolding unfold h by (simp add: primary_providers_def split: option.splits)
      have stored: "\<forall>r. primary_providers env key = Some r \<longrightarrow>
                     li_success r
                     \<and> snd (get_location_by_ip env ip cache)
                         = cache_put location_cache_max (t_store env) key r c'
                     \<and> map_of (snd (get_location_by_ip env ip cache)) key
                         = Some (r, t_store env)"
        unfolding unfold h using present primary_providers_accepts by simp
      have not_stored: "primary_providers env key = None \<longrightarrow>
                     snd (get_location_by_ip env ip cache) = c'"
        unfolding unfold h by simp
      from first stored not_stored
      show "fst (get_location_by_ip env ip cache) =
                (case amap_provider env key of
                   Some r \<Rightarrow> r
                 | None \<Rightarrow>
                     (case ipinfo_provider env key of
                        Some r \<Rightarrow> r
                      | None \<Rightarrow>
                          (case ipapi_provider env key of
                             Some r \<Rightarrow> r
                           | None \<Rightarrow> get_location_fallback env (Some key))))
              \<and> (\<forall>r. primary_providers env key = Some r \<longrightarrow>
                     li_success r
                     \<and> snd (get_location_by_ip env ip cache)
                         = cache_put location_cache_max (t_store env) key r c'
                     \<and> map_of (snd (get_location_by_ip env ip cache)) key
                         = Some (r, t_store env))
              \<and> (primary_providers env key = None \<longrightarrow>
                     snd (get_location_by_ip env ip cache) = c')"
        by (intro conjI)
    qed
    from hit miss
    show "(\<forall>res. hit = Some res \<longrightarrow>
            get_location_by_ip env ip cache = (res, cache)
            \<and> (\<exists>ts. map_of cache key = Some (res, ts)))
         \<and> (hit = None \<longrightarrow>
              fst (get_location_by_ip env ip cache) =
                (case amap_provider env key of
                   Some r \<Rightarrow> r
                 | None \<Rightarrow>
                     (case ipinfo_provider env key of
                        Some r \<Rightarrow> r
                      | None \<Rightarrow>
                          (case ipapi_provider env key of
                             Some r \<Rightarrow> r
                           | None \<Rightarrow> get_location_fallback env (Some key))))
              \<and> (\<forall>r. primary_providers env key = Some r \<longrightarrow>
                     li_success r
                     \<and> snd (get_location_by_ip env ip cache)
                         = cache_put location_cache_max (t_store env) key r c'
                     \<and> map_of (snd (get_location_by_ip env ip cache)) key
                         = Some (r, t_store env))
              \<and> (primary_providers env key = None \<longrightarrow>
                     snd (get_location_by_ip env ip cache) = c'))"
      by (intro conjI)
  qed
next
  show "\<forall>r. amap_provider env key = Some r \<or> ipinfo_provider env key = Some r \<longrightarrow>
           li_success r \<and> (truthy (li_city r) \<or> truthy (li_region r))"
    using amap_provider_accepts ipinfo_provider_accepts by blast
next
  show "li_success (get_location_fallback env x) \<longrightarrow>
           truthy (li_city (get_location_fallback env x))
           \<or> truthy (li_region (get_location_fallback env x))"
    using fallback_accepts by blast
qed

lemmas ip_eval = get_location_by_ip_def primary_providers_def amap_provider_def
  ipinfo_provider_def ipapi_provider_def get_location_fallback_def failed_location_def
  cache_get_def cache_put_def jget_def jget_default_def or_empty_def location_cache_max_def
  silent_ip_env_def ipinfo_city_x_def ipsb_city_x_def ipapi_empty_object_def

text \<open>The theorem for a run in which only the first free provider answers.\<close>

theorem ip_chain_first_accepted_is_stored_witness:
  "get_location_by_ip (silent_ip_env \<lparr> ipinfo_response := Some ipinfo_city_x \<rparr>) (Some [49]) []
     = (\<lparr> li_city = PStr [120], li_region = PStr [], li_country = PStr [],
          li_country_code = PStr [], li_ip = PStr [49], li_latitude = None,
          li_longitude = None, li_success = True \<rparr>,
        [([49],
          \<lparr> li_city = PStr [120], li_region = PStr [], li_country = PStr [],
            li_country_code = PStr [], li_ip = PStr [49], li_latitude = None,
            li_longitude = None, li_success = True \<rparr>, 0)])"
proof -
  let ?env = "silent_ip_env \<lparr> ipinfo_response := Some ipinfo_city_x \<rparr>"
  have h1: "[49] = or_empty (if or_empty (Some [49]) = [] then public_ip ?env else Some [49])"
    by (simp add: or_empty_def)
  have h2: "cache_get (t_lookup ?env) [49] ([] :: (ustring, location_info) cache) = (None, [])"
    by (simp add: cache_get_def)
  have h3: "distinct (map fst ([] :: (ustring, location_info) cache))" by simp
  have h4: "\<forall>e \<in> set ([] :: (ustring, location_info) cache). snd (snd e) \<le> t_store ?env" by simp
  from ip_chain_first_accepted_is_stored [OF h1 h2 h3 h4, of None]
  show ?thesis
    by (simp add: ip_eval Let_def)
qed

text \<open>
  When only the last resort answers, the record returned has \<^verbatim>\<open>success\<close> set and the
  cache stays empty. When the second free provider answers with an empty object, the record
  is accepted and stored although its city, region, country and coordinates are all empty.
\<close>

theorem ip_chain_fallback_not_stored_counterexample:
  "li_success (fst (get_location_by_ip
                      (silent_ip_env \<lparr> ipsb_response := Some ipsb_city_x \<rparr>) (Some [49]) []))
   \<and> snd (get_location_by_ip
            (silent_ip_env \<lparr> ipsb_response := Some ipsb_city_x \<rparr>) (Some [49]) []) = []
   \<and> get_location_by_ip (silent_ip_env \<lparr> ipapi_response := Some ipapi_empty_object \<rparr>) (Some [49]) []
       = (\<lparr> li_city = PStr [], li_region = PStr [], li_country = PStr [],
            li_country_code = PStr [], li_ip = PStr [49], li_latitude = None,
            li_longitude = None, li_success = True \<rparr>,
          [([49],
            \<lparr> li_city = PStr [], li_region = PStr [], li_country = PStr [],
              li_country_code = PStr [], li_ip = PStr [49], li_latitude = None,
              li_longitude = None, li_success = True \<rparr>, 0)])"
  by (simp add: ip_eval Let_def)

end
